theory Spec2Isabelle
  imports Main "HOL-Library.Word"
begin

unbundle bit_operations_syntax

section \<open>Python values the module works with\<close>

text \<open>
  Exceptions are values: every function of the module that can raise returns
  \<open>py_error + 'a\<close>, with \<open>Inl\<close> for the exception that leaves it.
  \<open>SlitherException\<close> carries its message.
\<close>

datatype py_error =
    ValueError
  | KeyError
  | AttributeError
  | AssertionError
  | UnicodeEncodeError
  | UnicodeDecodeError
  | SlitherException string
  | OtherError string

text \<open>
  Raw offsets, file names and messages are \<open>string\<close>s. A source text is a Python
  \<open>str\<close>, a sequence of code points; \<open>bytes\<close> are 8-bit words.
\<close>

type_synonym unicode = "nat list"
type_synonym bytes = "8 word list"

text \<open>\<open>crytic_compile.utils.naming.Filename\<close>: four renderings of one path.\<close>

record Filename =
  absolute :: string
  used :: string
  relative :: string
  short :: string

text \<open>
  The collaborators the module calls but does not define are fields of the context:
  \<open>filename_lookup\<close>, \<open>is_dependency\<close> and \<open>get_line_from_offset\<close> of the
  \<open>crytic_compile\<close> object (each may raise), the \<open>source_code\<close> dictionary and the
  \<open>line_prefix\<close> of the core, and the \<open>source_units\<close> dictionary of the compilation
  unit. \<open>None\<close> for \<open>crytic_compile\<close> is Python's \<open>None\<close>.
\<close>

record crytic_compile =
  filename_lookup :: "string \<Rightarrow> py_error + Filename"
  cc_is_dependency :: "string \<Rightarrow> bool"
  get_line_from_offset :: "Filename \<Rightarrow> int \<Rightarrow> py_error + (int \<times> int)"

record slither_core =
  crytic_compile :: "crytic_compile option"
  source_code :: "string \<rightharpoonup> unicode"
  line_prefix :: string

record compilation_unit =
  core :: slither_core
  source_units :: "int \<rightharpoonup> string"

section \<open>The class \<open>Source\<close>\<close>

text \<open>
  The attributes of \<open>Source\<close>, in the order \<open>__init__\<close> sets them. \<open>length\<close> and
  \<open>end\<close> are written \<open>length_src\<close> and \<open>end_src\<close>.
\<close>

record Source =
  start :: int
  length_src :: int
  filename :: Filename
  is_dependency :: bool
  lines :: "int list"
  starting_column :: int
  ending_column :: int
  end_src :: int
  compilation_unit :: "compilation_unit option"

definition empty_Filename :: Filename where
  "empty_Filename = \<lparr>absolute = [], used = [], relative = [], short = []\<rparr>"

definition Source_init :: "compilation_unit option \<Rightarrow> Source" where
  "Source_init cu =
     \<lparr>start = 0, length_src = 0, filename = empty_Filename, is_dependency = False,
      lines = [], starting_column = 0, ending_column = 0, end_src = 0,
      compilation_unit = cu\<rparr>"

section \<open>\<open>re.findall\<close> on the pattern of the decoder\<close>

text \<open>
  The pattern is \<open>([0-9]*):([0-9]*):([-]?[0-9]*)\<close>, not anchored. A digit run is
  followed by a colon or by nothing the pattern can use, so the greedy match at a
  position is the only one: the longest digit run, a colon, the longest digit run, a
  colon, an optional minus sign and the longest digit run. \<open>re_match_at\<close> returns the
  three groups and the text after the match.
\<close>

definition is_digit :: "char \<Rightarrow> bool" where
  "is_digit c = (c \<in> set ''0123456789'')"

definition re_match_at :: "string \<Rightarrow> ((string \<times> string \<times> string) \<times> string) option" where
  "re_match_at s =
     (let g1 = takeWhile is_digit s; r1 = dropWhile is_digit s in
      case r1 of
        [] \<Rightarrow> None
      | c1 # r1' \<Rightarrow>
          if c1 \<noteq> CHR '':'' then None
          else
            (let g2 = takeWhile is_digit r1'; r2 = dropWhile is_digit r1' in
             case r2 of
               [] \<Rightarrow> None
             | c2 # r2' \<Rightarrow>
                 if c2 \<noteq> CHR '':'' then None
                 else
                   (let sign = (case r2' of [] \<Rightarrow> [] | c3 # _ \<Rightarrow> if c3 = CHR ''-'' then [c3] else []);
                        r3 = drop (length sign) r2'
                    in Some ((g1, g2, sign @ takeWhile is_digit r3), dropWhile is_digit r3))))"

lemma re_match_at_shorter:
  assumes "re_match_at s = Some (g, rest)"
  shows "length rest < length s"
proof -
  have dw: "length (dropWhile is_digit xs) \<le> length xs" for xs
    by (rule length_dropWhile_le)
  obtain r1' where r1: "dropWhile is_digit s = CHR '':'' # r1'"
    using assms by (auto simp: re_match_at_def Let_def split: list.splits if_splits)
  obtain r2' where r2: "dropWhile is_digit r1' = CHR '':'' # r2'"
    using assms r1 by (auto simp: re_match_at_def Let_def split: list.splits if_splits)
  have "rest = dropWhile is_digit r2' \<or> rest = dropWhile is_digit (drop 1 r2')"
    using assms r1 r2 by (auto simp: re_match_at_def Let_def split: list.splits if_splits)
  then have "length rest \<le> length r2'"
    using dw [of r2'] dw [of "drop 1 r2'"] by auto
  also have "\<dots> < length (dropWhile is_digit r1')"
    by (simp add: r2)
  also have "\<dots> \<le> length r1'"
    by (rule dw)
  also have "\<dots> < length (dropWhile is_digit s)"
    by (simp add: r1)
  also have "\<dots> \<le> length s"
    by (rule dw)
  finally show ?thesis .
qed

text \<open>
  \<open>re.findall\<close>: scan from the left; where the pattern matches, keep the groups and go
  on after the match; where it does not, move one character on. The pattern needs
  two colons, so it never matches the empty string.
\<close>

function findall :: "string \<Rightarrow> (string \<times> string \<times> string) list" where
  "findall [] = []"
| "findall (c # cs) =
     (case re_match_at (c # cs) of
        Some (g, rest) \<Rightarrow> g # findall rest
      | None \<Rightarrow> findall cs)"
  by pat_completeness auto
termination
  by (relation "measure length") (auto dest: re_match_at_shorter)

section \<open>\<open>int\<close> on a captured group\<close>

text \<open>
  A group is a run of ASCII digits, the third one with an optional leading minus
  sign. \<open>int\<close> raises \<open>ValueError\<close> on the empty string, on a lone minus sign, and
  on more digits than the interpreter converts: \<open>sys.int_max_str_digits\<close>, 4300
  unless it is set otherwise. Leading zeros count, the sign does not.
\<close>

definition int_max_str_digits :: nat where
  "int_max_str_digits = 4300"

definition digit_value :: "char \<Rightarrow> int" where
  "digit_value c = int (of_char c) - 48"

definition digits_value :: "string \<Rightarrow> int" where
  "digits_value ds = foldl (\<lambda>a c. 10 * a + digit_value c) 0 ds"

definition py_int :: "string \<Rightarrow> py_error + int" where
  "py_int s =
     (case s of
        [] \<Rightarrow> Inl ValueError
      | c # cs \<Rightarrow>
          if c = CHR ''-'' then
            (if cs \<noteq> [] \<and> list_all is_digit cs \<and> length cs \<le> int_max_str_digits
             then Inr (- digits_value cs) else Inl ValueError)
          else if list_all is_digit s \<and> length s \<le> int_max_str_digits then Inr (digits_value s)
          else Inl ValueError)"

section \<open>The decoder\<close>

definition stale_msg :: "string \<Rightarrow> string" where
  "stale_msg short_name =
     ''The source code appears to be out of sync with the build artifacts on disk.'' @ [CHR 0x0A] @
     ''        This discrepancy can occur after recent modifications to '' @ short_name @
     ''. To resolve this'' @ [CHR 0x0A] @
     ''        issue, consider executing the clean command of the build system (e.g. forge clean).'' @
     [CHR 0x0A] @ ''        ''"

text \<open>
  \<open>_compute_line\<close>. The first lookup stands before the \<open>try\<close>: whatever it raises
  leaves the function as it is. The second stands inside: a \<open>KeyError\<close> becomes a
  \<open>SlitherException\<close>, any other exception passes. \<open>list(range(a, b + 1))\<close> is
  \<open>[a..b]\<close>, empty when \<open>b < a\<close>.
\<close>

definition compute_line ::
  "compilation_unit \<Rightarrow> Filename \<Rightarrow> int \<Rightarrow> int \<Rightarrow> py_error + (int list \<times> int \<times> int)" where
  "compute_line cu fname s l =
     (case crytic_compile (core cu) of
        None \<Rightarrow> Inl AttributeError
      | Some cc \<Rightarrow>
          (case get_line_from_offset cc fname s of
             Inl e \<Rightarrow> Inl e
           | Inr (start_line, starting_col) \<Rightarrow>
               (case get_line_from_offset cc fname (s + l) of
                  Inl e \<Rightarrow>
                    if e = KeyError then Inl (SlitherException (stale_msg (short fname)))
                    else Inl e
                | Inr (end_line, ending_col) \<Rightarrow>
                    Inr ([start_line..end_line], starting_col, ending_col))))"

text \<open>\<open>_convert_source_mapping\<close>, branch by branch.\<close>

definition convert_source_mapping :: "string \<Rightarrow> compilation_unit \<Rightarrow> py_error + Source" where
  "convert_source_mapping offset cu =
     (case findall offset of
        [(gs, gl, gf)] \<Rightarrow>
          (case py_int gs of
             Inl e \<Rightarrow> Inl e
           | Inr s \<Rightarrow>
          (case py_int gl of
             Inl e \<Rightarrow> Inl e
           | Inr l \<Rightarrow>
          (case py_int gf of
             Inl e \<Rightarrow> Inl e
           | Inr f \<Rightarrow>
          (case source_units cu f of
             None \<Rightarrow> Inr ((Source_init (Some cu))\<lparr>start := s, length_src := l\<rparr>)
           | Some filename_used \<Rightarrow>
          (case crytic_compile (core cu) of
             None \<Rightarrow> Inl AssertionError
           | Some cc \<Rightarrow>
          (case filename_lookup cc filename_used of
             Inl e \<Rightarrow> Inl e
           | Inr fname \<Rightarrow>
          (let is_dep = cc_is_dependency cc (absolute fname) in
           case compute_line cu fname s l of
             Inl e \<Rightarrow> Inl e
           | Inr (lns, starting_col, ending_col) \<Rightarrow>
               Inr ((Source_init (Some cu))
                     \<lparr>start := s, length_src := l, filename := fname,
                      is_dependency := is_dep, lines := lns,
                      starting_column := starting_col, ending_column := ending_col,
                      end_src := s + l\<rparr>))))))))
      | _ \<Rightarrow> Inr (Source_init (Some cu)))"

section \<open>Equality and hash of spans\<close>

text \<open>
  \<open>__eq__\<close> takes any object. The values an attribute can hold are \<open>None\<close>,
  booleans, integers, strings, lists and objects with a dictionary of attributes;
  \<open>VNotImplemented\<close> is the constant \<open>__eq__\<close> may return.
\<close>

datatype py_val =
    VNone
  | VBool bool
  | VInt int
  | VStr string
  | VList "py_val list"
  | VObj "(string \<times> py_val) list"
  | VNotImplemented

text \<open>Reading an attribute raises \<open>AttributeError\<close> where the object has none of that name.\<close>

fun getattr :: "py_val \<Rightarrow> string \<Rightarrow> py_error + py_val" where
  "getattr (VObj attrs) name =
     (case map_of attrs name of None \<Rightarrow> Inl AttributeError | Some v \<Rightarrow> Inr v)"
| "getattr _ name = Inl AttributeError"

text \<open>
  \<open>==\<close> with an integer, a boolean or a string on the left, as the attributes of a
  span are: a boolean counts as 0 or 1 among integers, and values of other kinds are
  not equal.
\<close>

fun int_eq :: "int \<Rightarrow> py_val \<Rightarrow> bool" where
  "int_eq a (VInt b) = (a = b)"
| "int_eq a (VBool b) = (a = (if b then 1 else 0))"
| "int_eq a _ = False"

fun bool_eq :: "bool \<Rightarrow> py_val \<Rightarrow> bool" where
  "bool_eq a (VBool b) = (a = b)"
| "bool_eq a (VInt b) = ((if a then 1 else 0) = b)"
| "bool_eq a _ = False"

fun str_eq :: "string \<Rightarrow> py_val \<Rightarrow> bool" where
  "str_eq a (VStr b) = (a = b)"
| "str_eq a _ = False"

text \<open>
  A span seen as an object: its data attributes under their Python names. The
  context is left out; \<open>__eq__\<close> and \<open>__hash__\<close> do not read it.
\<close>

definition Filename_as_obj :: "Filename \<Rightarrow> py_val" where
  "Filename_as_obj f =
     VObj [(''absolute'', VStr (absolute f)), (''used'', VStr (used f)),
           (''relative'', VStr (relative f)), (''short'', VStr (short f))]"

definition Source_as_obj :: "Source \<Rightarrow> py_val" where
  "Source_as_obj s =
     VObj [(''start'', VInt (start s)), (''length'', VInt (length_src s)),
           (''filename'', Filename_as_obj (filename s)),
           (''is_dependency'', VBool (is_dependency s)),
           (''lines'', VList (map VInt (lines s))),
           (''starting_column'', VInt (starting_column s)),
           (''ending_column'', VInt (ending_column s)),
           (''end'', VInt (end_src s))]"

text \<open>
  The body of the \<open>try\<close> in \<open>__eq__\<close>: the four comparisons from left to right,
  \<open>and\<close> stopping at the first that is false, each attribute of \<open>other\<close> read when
  its comparison is reached.
\<close>

definition eq_body :: "Source \<Rightarrow> py_val \<Rightarrow> py_error + bool" where
  "eq_body self other =
     (case getattr other ''start'' of
        Inl e \<Rightarrow> Inl e
      | Inr other_start \<Rightarrow>
          if \<not> int_eq (start self) other_start then Inr False
          else
     (case getattr other ''filename'' of
        Inl e \<Rightarrow> Inl e
      | Inr other_filename \<Rightarrow>
     (case getattr other_filename ''relative'' of
        Inl e \<Rightarrow> Inl e
      | Inr other_relative \<Rightarrow>
          if \<not> str_eq (relative (filename self)) other_relative then Inr False
          else
     (case getattr other ''is_dependency'' of
        Inl e \<Rightarrow> Inl e
      | Inr other_dep \<Rightarrow>
          if \<not> bool_eq (is_dependency self) other_dep then Inr False
          else
     (case getattr other ''end'' of
        Inl e \<Rightarrow> Inl e
      | Inr other_end \<Rightarrow> Inr (int_eq (end_src self) other_end))))))"

text \<open>\<open>__eq__\<close>: an \<open>AttributeError\<close> of the body becomes \<open>NotImplemented\<close>.\<close>

definition Source_eq :: "Source \<Rightarrow> py_val \<Rightarrow> py_error + py_val" where
  "Source_eq self other =
     (case eq_body self other of
        Inl e \<Rightarrow> if e = AttributeError then Inr VNotImplemented else Inl e
      | Inr b \<Rightarrow> Inr (VBool b))"

text \<open>
  \<open>__hash__\<close> applies the built-in \<open>hash\<close> to a tuple of four attributes. The
  built-in belongs to the interpreter and is a parameter here; \<open>hash_key\<close> is the
  tuple it is given.
\<close>

definition hash_key :: "Source \<Rightarrow> int \<times> int \<times> string \<times> int" where
  "hash_key self = (start self, length_src self, relative (filename self), end_src self)"

definition Source_hash :: "(int \<times> int \<times> string \<times> int \<Rightarrow> 'h) \<Rightarrow> Source \<Rightarrow> 'h" where
  "Source_hash py_hash self = py_hash (hash_key self)"

section \<open>UTF-8 and \<open>content\<close>\<close>

text \<open>
  \<open>str.encode("utf8")\<close>: one to four bytes for a code point, \<open>UnicodeEncodeError\<close>
  for a surrogate. A \<open>str\<close> holds no code point above \<open>0x10FFFF\<close>; the model
  answers with the same error there.
\<close>

definition byte :: "nat \<Rightarrow> 8 word" where
  "byte n = of_nat n"

definition encode_code_point :: "nat \<Rightarrow> py_error + bytes" where
  "encode_code_point cp =
     (if cp < 0x80 then Inr [byte cp]
      else if cp < 0x800 then Inr [byte (0xC0 + cp div 64), byte (0x80 + cp mod 64)]
      else if 0xD800 \<le> cp \<and> cp \<le> 0xDFFF then Inl UnicodeEncodeError
      else if cp < 0x10000 then
        Inr [byte (0xE0 + cp div 4096), byte (0x80 + cp div 64 mod 64),
             byte (0x80 + cp mod 64)]
      else if cp < 0x110000 then
        Inr [byte (0xF0 + cp div 262144), byte (0x80 + cp div 4096 mod 64),
             byte (0x80 + cp div 64 mod 64), byte (0x80 + cp mod 64)]
      else Inl UnicodeEncodeError)"

fun utf8_encode :: "unicode \<Rightarrow> py_error + bytes" where
  "utf8_encode [] = Inr []"
| "utf8_encode (cp # cps) =
     (case encode_code_point cp of
        Inl e \<Rightarrow> Inl e
      | Inr bs \<Rightarrow> (case utf8_encode cps of Inl e \<Rightarrow> Inl e | Inr rest \<Rightarrow> Inr (bs @ rest)))"

text \<open>
  \<open>bytes.decode("utf8")\<close>, strict: \<open>decode_step\<close> reads one code point from the
  front, refusing a stray continuation byte, a truncated sequence, an overlong form,
  a surrogate and a value above \<open>0x10FFFF\<close>.
\<close>

definition is_cont :: "8 word \<Rightarrow> bool" where
  "is_cont b = (0x80 \<le> unat b \<and> unat b < 0xC0)"

definition decode_step :: "bytes \<Rightarrow> (nat \<times> bytes) option" where
  "decode_step bs =
     (case bs of
        [] \<Rightarrow> None
      | b # r \<Rightarrow>
          (let n = unat b in
           if n < 0x80 then Some (n, r)
           else if n < 0xC2 then None
           else if n < 0xE0 then
             (case r of
                c1 # r1 \<Rightarrow>
                  if is_cont c1 then Some ((n - 0xC0) * 64 + (unat c1 - 0x80), r1) else None
              | _ \<Rightarrow> None)
           else if n < 0xF0 then
             (case r of
                c1 # c2 # r2 \<Rightarrow>
                  (let cp = (n - 0xE0) * 4096 + (unat c1 - 0x80) * 64 + (unat c2 - 0x80) in
                   if is_cont c1 \<and> is_cont c2 \<and> 0x800 \<le> cp \<and> (cp < 0xD800 \<or> 0xDFFF < cp)
                   then Some (cp, r2) else None)
              | _ \<Rightarrow> None)
           else if n < 0xF5 then
             (case r of
                c1 # c2 # c3 # r3 \<Rightarrow>
                  (let cp = (n - 0xF0) * 262144 + (unat c1 - 0x80) * 4096
                            + (unat c2 - 0x80) * 64 + (unat c3 - 0x80) in
                   if is_cont c1 \<and> is_cont c2 \<and> is_cont c3 \<and> 0x10000 \<le> cp \<and> cp < 0x110000
                   then Some (cp, r3) else None)
              | _ \<Rightarrow> None)
           else None))"

lemma decode_step_shorter:
  "decode_step bs = Some (cp, rest) \<Longrightarrow> length rest < length bs"
  by (auto simp: decode_step_def Let_def split: list.splits if_splits)

function utf8_decode :: "bytes \<Rightarrow> py_error + unicode" where
  "utf8_decode [] = Inr []"
| "utf8_decode (b # bs) =
     (case decode_step (b # bs) of
        None \<Rightarrow> Inl UnicodeDecodeError
      | Some (cp, rest) \<Rightarrow>
          (case utf8_decode rest of Inl e \<Rightarrow> Inl e | Inr cps \<Rightarrow> Inr (cp # cps)))"
  by pat_completeness auto
termination
  by (relation "measure length") (auto dest: decode_step_shorter)

text \<open>
  The slice \<open>xs[i:j]\<close>: a negative index counts from the end, and both are clamped
  to the length of the sequence.
\<close>

definition py_slice :: "'a list \<Rightarrow> int \<Rightarrow> int \<Rightarrow> 'a list" where
  "py_slice xs i j =
     (let n = int (length xs);
          lo = (if i < 0 then max (i + n) 0 else min i n);
          hi = (if j < 0 then max (j + n) 0 else min j n)
      in take (nat (hi - lo)) (drop (nat lo) xs))"

text \<open>
  The property \<open>content\<close>: the \<open>assert\<close> on the context, the lookup of the text
  under the absolute file name, then encode, slice on the bytes, decode.
\<close>

definition content :: "Source \<Rightarrow> py_error + unicode" where
  "content self =
     (case compilation_unit self of
        None \<Rightarrow> Inl AssertionError
      | Some cu \<Rightarrow>
          (case source_code (core cu) (absolute (filename self)) of
             None \<Rightarrow> Inl KeyError
           | Some txt \<Rightarrow>
               (case utf8_encode txt of
                  Inl e \<Rightarrow> Inl e
                | Inr bs \<Rightarrow> utf8_decode (py_slice bs (start self) (end_src self)))))"

section \<open>\<open>content_hash\<close>\<close>

text \<open>
  \<open>SHA1\<close> comes from \<open>Crypto.Hash\<close>: the hash function SHA-1 of FIPS 180-4, on
  32-bit words. \<open>sha1\<close> is the 20-byte digest of a message, \<open>hexdigest\<close> its
  rendering in lower-case hexadecimal digits.
\<close>

definition rotl :: "nat \<Rightarrow> 32 word \<Rightarrow> 32 word" where
  "rotl n x = push_bit n x OR drop_bit (32 - n) x"

definition be32 :: "bytes \<Rightarrow> 32 word" where
  "be32 bs = foldl (\<lambda>acc b. push_bit 8 acc OR ucast b) 0 bs"

definition be_bytes32 :: "32 word \<Rightarrow> bytes" where
  "be_bytes32 w = [ucast (drop_bit 24 w), ucast (drop_bit 16 w), ucast (drop_bit 8 w), ucast w]"

definition be_bytes64 :: "64 word \<Rightarrow> bytes" where
  "be_bytes64 w = map (\<lambda>i. ucast (drop_bit (8 * (7 - i)) w)) [0..<8]"

definition sha1_pad :: "bytes \<Rightarrow> bytes" where
  "sha1_pad msg =
     msg @ [0x80] @ replicate ((119 - length msg mod 64) mod 64) 0
       @ be_bytes64 (of_nat (8 * length msg))"

fun split_blocks :: "nat \<Rightarrow> nat \<Rightarrow> 'a list \<Rightarrow> 'a list list" where
  "split_blocks 0 sz xs = []"
| "split_blocks (Suc n) sz xs = take sz xs # split_blocks n sz (drop sz xs)"

fun expand :: "nat \<Rightarrow> 32 word list \<Rightarrow> 32 word list" where
  "expand 0 w = w"
| "expand (Suc n) w =
     (let t = length w in
      expand n (w @ [rotl 1 (w ! (t - 3) XOR w ! (t - 8) XOR w ! (t - 14) XOR w ! (t - 16))]))"

definition sha1_f :: "nat \<Rightarrow> 32 word \<Rightarrow> 32 word \<Rightarrow> 32 word \<Rightarrow> 32 word" where
  "sha1_f t b c d =
     (if t < 20 then (b AND c) OR (NOT b AND d)
      else if t < 40 then b XOR c XOR d
      else if t < 60 then (b AND c) OR (b AND d) OR (c AND d)
      else b XOR c XOR d)"

definition sha1_k :: "nat \<Rightarrow> 32 word" where
  "sha1_k t =
     (if t < 20 then 0x5A827999 else if t < 40 then 0x6ED9EBA1
      else if t < 60 then 0x8F1BBCDC else 0xCA62C1D6)"

type_synonym sha1_state = "32 word \<times> 32 word \<times> 32 word \<times> 32 word \<times> 32 word"

definition sha1_round :: "32 word list \<Rightarrow> sha1_state \<Rightarrow> nat \<Rightarrow> sha1_state" where
  "sha1_round w st t =
     (case st of (a, b, c, d, e) \<Rightarrow>
        (rotl 5 a + sha1_f t b c d + e + sha1_k t + w ! t, a, rotl 30 b, c, d))"

definition sha1_compress :: "sha1_state \<Rightarrow> bytes \<Rightarrow> sha1_state" where
  "sha1_compress h block =
     (let w = expand 64 (map be32 (split_blocks 16 4 block)) in
      case (h, foldl (sha1_round w) h [0..<80]) of
        ((h0, h1, h2, h3, h4), (a, b, c, d, e)) \<Rightarrow> (h0 + a, h1 + b, h2 + c, h3 + d, h4 + e))"

definition sha1_init :: sha1_state where
  "sha1_init = (0x67452301, 0xEFCDAB89, 0x98BADCFE, 0x10325476, 0xC3D2E1F0)"

definition sha1 :: "bytes \<Rightarrow> bytes" where
  "sha1 msg =
     (let padded = sha1_pad msg in
      case foldl sha1_compress sha1_init (split_blocks (length padded div 64) 64 padded) of
        (h0, h1, h2, h3, h4) \<Rightarrow> concat (map be_bytes32 [h0, h1, h2, h3, h4]))"

definition hex_byte :: "8 word \<Rightarrow> string" where
  "hex_byte b = [''0123456789abcdef'' ! (unat b div 16), ''0123456789abcdef'' ! (unat b mod 16)]"

definition hexdigest :: "bytes \<Rightarrow> string" where
  "hexdigest digest = concat (map hex_byte digest)"

text \<open>The property \<open>content_hash\<close>: the digest of the UTF-8 bytes of \<open>content\<close>.\<close>

definition content_hash :: "Source \<Rightarrow> py_error + string" where
  "content_hash self =
     (case content self of
        Inl e \<Rightarrow> Inl e
      | Inr c \<Rightarrow>
          (case utf8_encode c of
             Inl e \<Rightarrow> Inl e
           | Inr bs \<Rightarrow> Inr (hexdigest (sha1 bs))))"

section \<open>Predicates of the specification\<close>

text \<open>
  The grammar of the specification, anchored at both ends: the pattern matches at
  the first character and the match ends the string.
\<close>

definition matches_anchored :: "string \<Rightarrow> bool" where
  "matches_anchored raw = (case re_match_at raw of None \<Rightarrow> False | Some (g, rest) \<Rightarrow> rest = [])"

text \<open>A lower-case hexadecimal digit.\<close>

definition is_hex_char :: "char \<Rightarrow> bool" where
  "is_hex_char c = (c \<in> set ''0123456789abcdef'')"

section \<open>A context to run the module on\<close>

text \<open>
  One file \<open>a.sol\<close> of two lines of ten bytes each, the first with two two-byte
  characters (U+00E9, twice, in a comment) and the second \<open>uint x=1;\<close>, each ended by a line feed. The
  line index knows the offsets 0 to 19 and the end-of-file offset 20, and raises
  \<open>KeyError\<close> elsewhere. File index 0 is the only one known.
\<close>

definition demo_file :: Filename where
  "demo_file =
     \<lparr>absolute = ''/src/a.sol'', used = ''a.sol'', relative = ''a.sol'', short = ''a.sol''\<rparr>"

definition demo_text :: unicode where
  "demo_text =
     [47, 47, 32, 233, 116, 233, 33, 10, 117, 105, 110, 116, 32, 120, 61, 49, 59, 10]"

definition demo_line_index :: "Filename \<Rightarrow> int \<Rightarrow> py_error + (int \<times> int)" where
  "demo_line_index fname off =
     (if 0 \<le> off \<and> off < 20 then Inr (off div 10 + 1, off mod 10 + 1)
      else if off = 20 then Inr (3, 0)
      else Inl KeyError)"

definition demo_cc :: crytic_compile where
  "demo_cc =
     \<lparr>filename_lookup = (\<lambda>u. if u = ''a.sol'' then Inr demo_file else Inl ValueError),
      cc_is_dependency = (\<lambda>a. False),
      get_line_from_offset = demo_line_index\<rparr>"

definition demo_cu :: compilation_unit where
  "demo_cu =
     \<lparr>core = \<lparr>crytic_compile = Some demo_cc,
              source_code = [''/src/a.sol'' \<mapsto> demo_text],
              line_prefix = ''#''\<rparr>,
      source_units = [0 \<mapsto> ''a.sol'']\<rparr>"




text \<open>The span of \<open>uint\<close> in the second line: bytes 10 to 14.\<close>

definition demo_span :: Source where
  "demo_span =
     \<lparr>start = 10, length_src = 4, filename = demo_file, is_dependency = False,
      lines = [2], starting_column = 1, ending_column = 5, end_src = 14,
      compilation_unit = Some demo_cu\<rparr>"

lemmas decoder_defs =
  convert_source_mapping_def compute_line_def re_match_at_def is_digit_def
  py_int_def int_max_str_digits_def digits_value_def digit_value_def Source_init_def
  empty_Filename_def

lemmas demo_defs = demo_cu_def demo_cc_def demo_line_index_def demo_file_def

section \<open>Well-formed triples\<close>

lemma takeWhile_digits_stop:
  assumes "list_all is_digit ds" and "\<not> is_digit c"
  shows "takeWhile is_digit (ds @ c # rest) = ds"
    and "dropWhile is_digit (ds @ c # rest) = c # rest"
  using assms by (simp_all add: list_all_iff takeWhile_append2 dropWhile_append2)

lemma takeWhile_digits_end:
  assumes "list_all is_digit ds"
  shows "takeWhile is_digit ds = ds" and "dropWhile is_digit ds = []"
  using assms by (simp_all add: list_all_iff)

lemma colon_not_digit: "\<not> is_digit CHR '':''"
  by (simp add: is_digit_def)

lemma minus_not_digit: "\<not> is_digit CHR ''-''"
  by (simp add: is_digit_def)

text \<open>What \<open>int\<close> accepts among the groups: digits, not empty, after an optional minus sign.\<close>

lemma py_int_shape:
  assumes "py_int df = Inr f"
  shows "\<exists>sg dd. df = sg @ dd \<and> (sg = [] \<or> sg = ''-'') \<and> dd \<noteq> [] \<and> list_all is_digit dd"
proof (cases df)
  case Nil
  with assms show ?thesis by (simp add: py_int_def)
next
  case (Cons c cs)
  show ?thesis
  proof (cases "c = CHR ''-''")
    case True
    with assms Cons have "cs \<noteq> []" "list_all is_digit cs"
      by (auto simp: py_int_def split: if_splits)
    with True Cons show ?thesis by (intro exI [of _ "''-''"] exI [of _ cs]) simp
  next
    case False
    with assms Cons have "list_all is_digit df"
      by (auto simp: py_int_def split: if_splits)
    with Cons show ?thesis by (intro exI [of _ "[]"] exI [of _ df]) simp
  qed
qed

lemma py_int_digits:
  assumes "ds \<noteq> []" and "list_all is_digit ds" and "length ds \<le> int_max_str_digits"
  shows "py_int ds = Inr (digits_value ds)"
proof -
  obtain d ds' where ds: "ds = d # ds'" using assms(1) by (cases ds) auto
  then have "is_digit d" using assms(2) by simp
  then have "d \<noteq> CHR ''-''" using minus_not_digit by auto
  then show ?thesis using assms(2) assms(3) ds by (simp add: py_int_def)
qed

lemma py_int_too_long:
  assumes "list_all is_digit ds" and "int_max_str_digits < length ds"
  shows "py_int ds = Inl ValueError"
proof -
  obtain d ds' where ds: "ds = d # ds'" using assms(2) by (cases ds) auto
  then have "is_digit d" using assms(1) by simp
  then have "d \<noteq> CHR ''-''" using minus_not_digit by auto
  then show ?thesis using assms(2) ds by (simp add: py_int_def)
qed

lemma re_match_at_triple:
  assumes "list_all is_digit ds" and "list_all is_digit dl" and "py_int df = Inr f"
  shows "re_match_at (ds @ '':'' @ dl @ '':'' @ df) = Some ((ds, dl, df), [])"
proof -
  obtain sg dd where df: "df = sg @ dd" and sg: "sg = [] \<or> sg = ''-''"
    and dd: "dd \<noteq> []" "list_all is_digit dd"
    using py_int_shape [OF assms(3)] by blast
  have 1: "takeWhile is_digit (ds @ '':'' @ dl @ '':'' @ df) = ds"
    "dropWhile is_digit (ds @ '':'' @ dl @ '':'' @ df) = CHR '':'' # dl @ '':'' @ df"
    using takeWhile_digits_stop [OF assms(1) colon_not_digit] by simp_all
  have 2: "takeWhile is_digit (dl @ '':'' @ df) = dl"
    "dropWhile is_digit (dl @ '':'' @ df) = CHR '':'' # df"
    using takeWhile_digits_stop [OF assms(2) colon_not_digit] by simp_all
  from sg show ?thesis
  proof
    assume "sg = []"
    then have "df = dd" using df by simp
    moreover obtain d ds' where d: "dd = d # ds'" using dd(1) by (cases dd) auto
    moreover have "is_digit d" using dd(2) d by simp
    then have "d \<noteq> CHR ''-''" using minus_not_digit by auto
    ultimately show ?thesis
      using 1 2 takeWhile_digits_end [OF dd(2)]
      by (simp add: re_match_at_def Let_def)
  next
    assume "sg = ''-''"
    then have "df = CHR ''-'' # dd" using df by simp
    then show ?thesis
      using 1 2 takeWhile_digits_end [OF dd(2)]
      by (simp add: re_match_at_def Let_def)
  qed
qed

lemma findall_triple:
  assumes "list_all is_digit ds" and "list_all is_digit dl" and "py_int df = Inr f"
  shows "findall (ds @ '':'' @ dl @ '':'' @ df) = [(ds, dl, df)]"
proof -
  obtain c cs where s: "ds @ '':'' @ dl @ '':'' @ df = c # cs"
    by (cases "ds @ '':'' @ dl @ '':'' @ df") auto
  have "re_match_at (c # cs) = Some ((ds, dl, df), [])"
    using re_match_at_triple [OF assms] s by simp
  then have "findall (c # cs) = [(ds, dl, df)]" by simp
  then show ?thesis using s by simp
qed

lemma matches_anchored_triple:
  assumes "list_all is_digit ds" and "list_all is_digit dl" and "py_int df = Inr f"
  shows "matches_anchored (ds @ '':'' @ dl @ '':'' @ df)"
  unfolding matches_anchored_def re_match_at_triple [OF assms] by simp

text \<open>A match needs two colons.\<close>

lemma re_match_at_colons:
  assumes "re_match_at s = Some x"
  shows "2 \<le> length (filter (\<lambda>c. c = CHR '':'') s)"
proof -
  obtain r1' where r1: "dropWhile is_digit s = CHR '':'' # r1'"
    using assms by (auto simp: re_match_at_def Let_def split: list.splits if_splits)
  obtain r2' where r2: "dropWhile is_digit r1' = CHR '':'' # r2'"
    using assms r1 by (auto simp: re_match_at_def Let_def split: list.splits if_splits)
  have "s = takeWhile is_digit s @ CHR '':'' # takeWhile is_digit r1' @ CHR '':'' # r2'"
    using takeWhile_dropWhile_id [of is_digit s] takeWhile_dropWhile_id [of is_digit r1'] r1 r2
    by simp
  then have "length (filter (\<lambda>c. c = CHR '':'') s) =
      length (filter (\<lambda>c. c = CHR '':'')
        (takeWhile is_digit s @ CHR '':'' # takeWhile is_digit r1' @ CHR '':'' # r2'))"
    by simp
  then show ?thesis by simp
qed

lemma findall_few_colons:
  "length (filter (\<lambda>c. c = CHR '':'') s) < 2 \<Longrightarrow> findall s = []"
proof (induction s rule: findall.induct)
  case 1
  then show ?case by simp
next
  case (2 c cs)
  have none: "re_match_at (c # cs) = None"
  proof (cases "re_match_at (c # cs)")
    case None
    then show ?thesis .
  next
    case (Some x)
    from re_match_at_colons [OF this] "2.prems" show ?thesis by simp
  qed
  have "length (filter (\<lambda>c. c = CHR '':'') cs) < 2"
    using "2.prems" by (simp split: if_splits)
  with "2.IH"(1) [OF none] none show ?case by simp
qed

section \<open>The decoder on each branch\<close>



text \<open>
  More digits than the interpreter converts end the decoder with \<open>ValueError\<close>.
\<close>

lemma decode_too_many_digits:
  assumes "list_all is_digit ds" and "int_max_str_digits < length ds"
    and "list_all is_digit dl" and "py_int df = Inr f"
  shows "convert_source_mapping (ds @ '':'' @ dl @ '':'' @ df) cu = Inl ValueError"
proof -
  have fa: "findall (ds @ '':'' @ dl @ '':'' @ df) = [(ds, dl, df)]"
    using assms by (intro findall_triple)
  show ?thesis
    unfolding convert_source_mapping_def fa
    using py_int_too_long [OF assms(1) assms(2)] by simp
qed

text \<open>
  C5, as the code has it. A triple whose start and length are numerals of one to
  4300 digits, and whose file index \<open>int\<close> converts and \<open>source_units\<close> does not
  hold, is decoded, without an exception, to a span that carries \<open>start\<close> and
  \<open>length\<close> and has every other attribute at its default: \<open>end\<close> stays 0, the file
  name is empty, there are no lines and both columns are 0.
\<close>

theorem decode_unresolved:
  assumes "ds \<noteq> []" and "list_all is_digit ds" and "length ds \<le> int_max_str_digits"
    and "dl \<noteq> []" and "list_all is_digit dl" and "length dl \<le> int_max_str_digits"
    and "py_int df = Inr f"
    and "source_units cu f = None"
  shows "convert_source_mapping (ds @ '':'' @ dl @ '':'' @ df) cu =
           Inr \<lparr>start = digits_value ds, length_src = digits_value dl,
                filename = empty_Filename, is_dependency = False, lines = [],
                starting_column = 0, ending_column = 0, end_src = 0,
                compilation_unit = Some cu\<rparr>"
proof -
  have fa: "findall (ds @ '':'' @ dl @ '':'' @ df) = [(ds, dl, df)]"
    using assms by (intro findall_triple)
  show ?thesis
    unfolding convert_source_mapping_def fa
    using assms by (simp add: py_int_digits Source_init_def)
qed

text \<open>The example of the specification: \<open>10:5:999\<close> with no file 999.\<close>

theorem decode_unresolved_witness:
  "convert_source_mapping ''10:5:999'' demo_cu =
     Inr \<lparr>start = 10, length_src = 5,
          filename = \<lparr>absolute = [], used = [], relative = [], short = []\<rparr>,
          is_dependency = False, lines = [],
          starting_column = 0, ending_column = 0, end_src = 0,
          compilation_unit = Some demo_cu\<rparr>"
proof -
  have d: "''10'' \<noteq> []" "list_all is_digit ''10''" "length ''10'' \<le> int_max_str_digits"
    "''5'' \<noteq> []" "list_all is_digit ''5''" "length ''5'' \<le> int_max_str_digits"
    "py_int ''999'' = Inr 999" "source_units demo_cu 999 = None"
    by (simp_all add: is_digit_def py_int_def int_max_str_digits_def digits_value_def
        digit_value_def demo_cu_def)
  have v: "digits_value ''10'' = 10" "digits_value ''5'' = 5"
    by (simp_all add: digits_value_def digit_value_def)
  show ?thesis
    using decode_unresolved [OF d] by (simp add: v empty_Filename_def)
qed

text \<open>
  Two triples that match the grammar, with file 999 unknown, and are not decoded:
  one with an empty start, one with a start of 4301 digits. Both end with
  \<open>ValueError\<close>.
\<close>

theorem decode_unresolved_counterexample:
  "matches_anchored '':5:999''
   \<and> source_units demo_cu 999 = None
   \<and> convert_source_mapping '':5:999'' demo_cu = Inl ValueError
   \<and> matches_anchored (replicate 4301 CHR ''1'' @ '':5:999'')
   \<and> convert_source_mapping (replicate 4301 CHR ''1'' @ '':5:999'') demo_cu = Inl ValueError"
proof -
  have one: "is_digit CHR ''1''"
    by (simp add: is_digit_def)
  have d: "list_all is_digit (replicate 4301 CHR ''1'')"
    "int_max_str_digits < length (replicate 4301 CHR ''1'')"
    "list_all is_digit ''5''" "py_int ''999'' = Inr 999"
    by (simp_all add: list_all_iff one is_digit_def py_int_def int_max_str_digits_def
        digits_value_def digit_value_def)
  have long: "convert_source_mapping (replicate 4301 CHR ''1'' @ '':'' @ ''5'' @ '':'' @ ''999'')
      demo_cu = Inl ValueError"
    by (rule decode_too_many_digits [OF d])
  have anchored: "matches_anchored (replicate 4301 CHR ''1'' @ '':'' @ ''5'' @ '':'' @ ''999'')"
    by (rule matches_anchored_triple [OF d(1) d(3) d(4)])
  have short: "matches_anchored '':5:999''" "source_units demo_cu 999 = None"
    "convert_source_mapping '':5:999'' demo_cu = Inl ValueError"
    by (simp_all add: matches_anchored_def decoder_defs demo_defs)
  show ?thesis
    using short long anchored by simp
qed




text \<open>What a match captures: two digit runs, and a digit run after an optional minus sign.\<close>

lemma re_match_at_groups:
  assumes "re_match_at s = Some ((gs, gl, gf), rest)"
  shows "list_all is_digit gs" and "list_all is_digit gl"
    and "\<exists>sg dd. gf = sg @ dd \<and> (sg = [] \<or> sg = ''-'') \<and> list_all is_digit dd"
proof -
  obtain r1' where r1: "dropWhile is_digit s = CHR '':'' # r1'"
    using assms by (auto simp: re_match_at_def Let_def split: list.splits if_splits)
  obtain r2' where r2: "dropWhile is_digit r1' = CHR '':'' # r2'"
    using assms r1 by (auto simp: re_match_at_def Let_def split: list.splits if_splits)
  have tw: "list_all is_digit (takeWhile is_digit xs)" for xs
    by (auto simp: list_all_iff dest: set_takeWhileD)
  have g: "gs = takeWhile is_digit s" "gl = takeWhile is_digit r1'"
    using assms r1 r2 by (auto simp: re_match_at_def Let_def split: list.splits if_splits)
  show "list_all is_digit gs" and "list_all is_digit gl"
    using tw g by simp_all
  have "gf = [] @ takeWhile is_digit r2' \<or> gf = ''-'' @ takeWhile is_digit (drop 1 r2')"
    using assms r1 r2 by (auto simp: re_match_at_def Let_def split: list.splits if_splits)
  then show "\<exists>sg dd. gf = sg @ dd \<and> (sg = [] \<or> sg = ''-'') \<and> list_all is_digit dd"
    using tw by blast
qed

text \<open>The three groups, joined by colons, match again from end to end.\<close>

lemma re_match_at_join:
  assumes "list_all is_digit gs" and "list_all is_digit gl"
    and "gf = sg @ dd" and "sg = [] \<or> sg = ''-''" and "list_all is_digit dd"
  shows "re_match_at (gs @ '':'' @ gl @ '':'' @ gf) = Some ((gs, gl, gf), [])"
proof -
  have 1: "takeWhile is_digit (gs @ '':'' @ gl @ '':'' @ gf) = gs"
    "dropWhile is_digit (gs @ '':'' @ gl @ '':'' @ gf) = CHR '':'' # gl @ '':'' @ gf"
    using takeWhile_digits_stop [OF assms(1) colon_not_digit] by simp_all
  have 2: "takeWhile is_digit (gl @ '':'' @ gf) = gl"
    "dropWhile is_digit (gl @ '':'' @ gf) = CHR '':'' # gf"
    using takeWhile_digits_stop [OF assms(2) colon_not_digit] by simp_all
  from assms(4) show ?thesis
  proof
    assume sg: "sg = []"
    show ?thesis
    proof (cases dd)
      case Nil
      then show ?thesis
        using 1 2 sg assms(3) by (simp add: re_match_at_def Let_def)
    next
      case (Cons d ds')
      then have "is_digit d" using assms(5) by simp
      then have "d \<noteq> CHR ''-''" using minus_not_digit by auto
      then show ?thesis
        using 1 2 sg assms(3) Cons takeWhile_digits_end [OF assms(5)]
        by (simp add: re_match_at_def Let_def)
    qed
  next
    assume "sg = ''-''"
    then have "gf = CHR ''-'' # dd" using assms(3) by simp
    then show ?thesis
      using 1 2 takeWhile_digits_end [OF assms(5)]
      by (simp add: re_match_at_def Let_def)
  qed
qed

lemma findall_member_is_match:
  "g \<in> set (findall raw) \<Longrightarrow> \<exists>s rest. re_match_at s = Some (g, rest)"
proof (induction raw rule: findall.induct)
  case 1
  then show ?case by simp
next
  case (2 c cs)
  show ?case
  proof (cases "re_match_at (c # cs)")
    case None
    with "2.prems" have "g \<in> set (findall cs)" by simp
    with "2.IH"(1) [OF None] show ?thesis .
  next
    case (Some x)
    obtain g' rest where x: "x = (g', rest)" by (cases x)
    with "2.prems" Some have "g = g' \<or> g \<in> set (findall rest)" by simp
    then show ?thesis
    proof
      assume "g = g'"
      with Some x show ?thesis by blast
    next
      assume "g \<in> set (findall rest)"
      with "2.IH"(2) [OF Some x [symmetric]] show ?thesis .
    qed
  qed
qed

lemma findall_join:
  assumes "findall raw = [(gs, gl, gf)]"
  shows "findall (gs @ '':'' @ gl @ '':'' @ gf) = [(gs, gl, gf)]"
proof -
  have "(gs, gl, gf) \<in> set (findall raw)"
    using assms by simp
  then obtain s rest where m: "re_match_at s = Some ((gs, gl, gf), rest)"
    using findall_member_is_match by blast
  obtain sg dd where gf: "gf = sg @ dd" "sg = [] \<or> sg = ''-''" "list_all is_digit dd"
    using re_match_at_groups(3) [OF m] by blast
  have j: "re_match_at (gs @ '':'' @ gl @ '':'' @ gf) = Some ((gs, gl, gf), [])"
    by (rule re_match_at_join [OF re_match_at_groups(1) [OF m] re_match_at_groups(2) [OF m] gf])
  obtain c cs where s: "gs @ '':'' @ gl @ '':'' @ gf = c # cs"
    by (cases "gs @ '':'' @ gl @ '':'' @ gf") auto
  have "findall (c # cs) = [(gs, gl, gf)]"
    using j s by simp
  then show ?thesis using s by simp
qed

text \<open>
  C6, as the code has it. The search is not anchored: what decides is the number
  of matches \<open>re.findall\<close> returns. When that number is not one (no match, as for
  the empty string and for every string with fewer than two colons, or several
  matches) the decoder returns the span with every attribute at its default, and
  raises nothing. When it is one, the decoder does with the raw string what it does
  with the three groups of the match joined by colons: the characters around the
  match play no part.
\<close>

theorem decode_malformed:
  "(length (filter (\<lambda>c. c = CHR '':'') raw) < 2 \<or> length (findall raw) \<noteq> 1 \<longrightarrow>
      convert_source_mapping raw cu =
        Inr \<lparr>start = 0, length_src = 0, filename = empty_Filename, is_dependency = False,
             lines = [], starting_column = 0, ending_column = 0, end_src = 0,
             compilation_unit = Some cu\<rparr>)
   \<and> (findall raw = [(gs, gl, gf)] \<longrightarrow>
        convert_source_mapping raw cu =
          convert_source_mapping (gs @ '':'' @ gl @ '':'' @ gf) cu)"
proof (intro conjI impI)
  assume a: "length (filter (\<lambda>c. c = CHR '':'') raw) < 2 \<or> length (findall raw) \<noteq> 1"
  have "length (findall raw) \<noteq> 1"
    using a findall_few_colons [of raw] by auto
  then show "convert_source_mapping raw cu =
        Inr \<lparr>start = 0, length_src = 0, filename = empty_Filename, is_dependency = False,
             lines = [], starting_column = 0, ending_column = 0, end_src = 0,
             compilation_unit = Some cu\<rparr>"
    by (auto simp: convert_source_mapping_def Source_init_def split: list.splits)
next
  assume one: "findall raw = [(gs, gl, gf)]"
  show "convert_source_mapping raw cu = convert_source_mapping (gs @ '':'' @ gl @ '':'' @ gf) cu"
    unfolding convert_source_mapping_def one findall_join [OF one] by (rule refl)
qed

text \<open>
  The empty string has no match, \<open>1:2:0:4:5\<close> has two, and \<open>x8:4:0y\<close> has the one
  match \<open>8:4:0\<close>.
\<close>

theorem decode_malformed_witness:
  "convert_source_mapping [] demo_cu =
     Inr \<lparr>start = 0, length_src = 0, filename = empty_Filename, is_dependency = False,
          lines = [], starting_column = 0, ending_column = 0, end_src = 0,
          compilation_unit = Some demo_cu\<rparr>
   \<and> convert_source_mapping ''1:2:0:4:5'' demo_cu =
     Inr \<lparr>start = 0, length_src = 0, filename = empty_Filename, is_dependency = False,
          lines = [], starting_column = 0, ending_column = 0, end_src = 0,
          compilation_unit = Some demo_cu\<rparr>
   \<and> convert_source_mapping ''x8:4:0y'' demo_cu = convert_source_mapping ''8:4:0'' demo_cu"
proof -
  have two: "length (findall ''1:2:0:4:5'') \<noteq> 1"
    by (simp add: re_match_at_def is_digit_def)
  have one: "findall ''x8:4:0y'' = [(''8'', ''4'', ''0'')]"
    by (simp add: re_match_at_def is_digit_def)
  have "convert_source_mapping ''x8:4:0y'' demo_cu =
      convert_source_mapping (''8'' @ '':'' @ ''4'' @ '':'' @ ''0'') demo_cu"
    using decode_malformed [of "''x8:4:0y''" demo_cu "''8''" "''4''" "''0''"] one by blast
  then show ?thesis
    using two decode_malformed [of "[]" demo_cu] decode_malformed [of "''1:2:0:4:5''" demo_cu]
    by simp
qed

text \<open>
  A string with a character before the triple does not match the anchored grammar,
  and is not decoded to the default span: its one match is decoded.
\<close>

theorem anchored_grammar_counterexample:
  "\<not> matches_anchored ''x10:5:999''
   \<and> convert_source_mapping ''x10:5:999'' demo_cu =
       Inr \<lparr>start = 10, length_src = 5, filename = empty_Filename, is_dependency = False,
            lines = [], starting_column = 0, ending_column = 0, end_src = 0,
            compilation_unit = Some demo_cu\<rparr>
   \<and> convert_source_mapping ''x10:5:999'' demo_cu \<noteq> Inr (Source_init (Some demo_cu))"
  by (simp add: matches_anchored_def decoder_defs demo_defs)

text \<open>
  C4. On the branch of an unknown file index \<open>end\<close> is not assigned: for
  \<open>10:5:999\<close> the span has \<open>start = 10\<close>, \<open>length = 5\<close> and \<open>end = 0\<close>, not 15.
\<close>

theorem unresolved_end_not_set:
  "map_sum id (\<lambda>sp. (start sp, length_src sp, end_src sp))
     (convert_source_mapping ''10:5:999'' demo_cu) = Inr (10, 5, 0)"
  by (simp add: decoder_defs demo_defs)

text \<open>
  Every span the decoder returns has \<open>end = start + length\<close>, but for the spans of
  that branch.
\<close>

lemma decoder_end_cases:
  assumes "convert_source_mapping raw cu = Inr sp"
  shows "end_src sp = start sp + length_src sp
     \<or> (end_src sp = 0 \<and> lines sp = [] \<and> filename sp = empty_Filename
         \<and> (\<exists>gs gl gf f. findall raw = [(gs, gl, gf)] \<and> py_int gf = Inr f \<and> source_units cu f = None))"
  using assms
  by (auto simp: convert_source_mapping_def Source_init_def compute_line_def Let_def
      split: list.splits sum.splits option.splits prod.splits if_splits)

text \<open>
  C7. The pattern lets each component be empty, and \<open>int\<close> raises \<open>ValueError\<close> on
  the empty string: an empty file index, an empty start and an empty length each
  end the decoder with that exception.
\<close>

theorem empty_component_raises:
  "convert_source_mapping ''10:5:'' demo_cu = Inl ValueError
   \<and> convert_source_mapping '':5:0'' demo_cu = Inl ValueError
   \<and> convert_source_mapping ''10::0'' demo_cu = Inl ValueError"
  by (simp add: decoder_defs demo_defs)

text \<open>
  C2. The lookup of the start offset stands outside the \<open>try\<close>: for offset 30,
  which the line index does not know, the \<open>KeyError\<close> leaves the decoder as it is.
\<close>

theorem start_lookup_failure_is_raw:
  "convert_source_mapping ''30:5:0'' demo_cu = Inl KeyError"
  by (simp add: decoder_defs demo_defs)

text \<open>Whatever the lookup of the start offset raises leaves \<open>_compute_line\<close> unchanged.\<close>

lemma start_lookup_failure_passes:
  assumes "crytic_compile (core cu) = Some cc"
    and "get_line_from_offset cc fname s = Inl e"
  shows "compute_line cu fname s l = Inl e"
  using assms by (simp add: compute_line_def)

text \<open>
  The lookup of the end offset is the guarded one: its \<open>KeyError\<close> becomes a
  \<open>SlitherException\<close> whose message holds the short name of the file.
\<close>

lemma end_lookup_failure_is_wrapped:
  assumes "crytic_compile (core cu) = Some cc"
    and "get_line_from_offset cc fname s = Inr p"
    and "get_line_from_offset cc fname (s + l) = Inl KeyError"
  shows "compute_line cu fname s l = Inl (SlitherException (stale_msg (short fname)))"
  using assms by (cases p) (simp add: compute_line_def)

text \<open>A file index \<open>-1\<close> that is not a key of \<open>source_units\<close> gives the unresolved span.\<close>

lemma minus_one_unresolved:
  assumes "ds \<noteq> []" and "list_all is_digit ds" and "length ds \<le> int_max_str_digits"
    and "dl \<noteq> []" and "list_all is_digit dl" and "length dl \<le> int_max_str_digits"
    and "source_units cu (- 1) = None"
  shows "convert_source_mapping (ds @ '':'' @ dl @ '':'' @ ''-1'') cu =
     Inr ((Source_init (Some cu))\<lparr>start := digits_value ds, length_src := digits_value dl\<rparr>)"
proof -
  have m: "py_int ''-1'' = Inr (- 1)"
    by (simp add: py_int_def int_max_str_digits_def is_digit_def digits_value_def
        digit_value_def)
  have fa: "findall (ds @ '':'' @ dl @ '':'' @ ''-1'') = [(ds, dl, ''-1'')]"
    using assms m by (intro findall_triple)
  show ?thesis
    unfolding convert_source_mapping_def fa
    using assms m by (simp add: py_int_digits)
qed

section \<open>Equality and hash: properties\<close>

lemma getattr_error: "getattr v name = Inl e \<Longrightarrow> e = AttributeError"
  by (cases v) (auto split: option.splits)

lemma eq_body_error: "eq_body self other = Inl e \<Longrightarrow> e = AttributeError"
  by (auto simp: eq_body_def split: sum.splits if_splits dest: getattr_error)

text \<open>
  C10. \<open>__eq__\<close> raises nothing, whatever the other value is: it returns a boolean
  or \<open>NotImplemented\<close>. Where the other value has no attribute \<open>start\<close>, as a value
  with none of the attributes of a span, it returns \<open>NotImplemented\<close>.
\<close>

theorem Source_eq_total:
  "((\<exists>b. Source_eq self other = Inr (VBool b)) \<or> Source_eq self other = Inr VNotImplemented)
   \<and> (getattr other ''start'' = Inl AttributeError \<longrightarrow>
        Source_eq self other = Inr VNotImplemented)"
proof
  show "(\<exists>b. Source_eq self other = Inr (VBool b)) \<or> Source_eq self other = Inr VNotImplemented"
  proof (cases "eq_body self other")
    case (Inl e)
    then show ?thesis using eq_body_error [OF Inl] by (simp add: Source_eq_def)
  next
    case (Inr b)
    then show ?thesis by (simp add: Source_eq_def)
  qed
  show "getattr other ''start'' = Inl AttributeError \<longrightarrow>
        Source_eq self other = Inr VNotImplemented"
    by (simp add: Source_eq_def eq_body_def)
qed

text \<open>An integer has no attributes; an object with another \<open>start\<close> is not equal.\<close>

theorem Source_eq_total_witness:
  "Source_eq (Source_init None) (VInt 3) = Inr VNotImplemented
   \<and> Source_eq (Source_init None) (VObj [(''start'', VInt 1)]) = Inr (VBool False)"
proof -
  have "getattr (VInt 3) ''start'' = Inl AttributeError"
    by simp
  then have "Source_eq (Source_init None) (VInt 3) = Inr VNotImplemented"
    using Source_eq_total [of "Source_init None" "VInt 3"] by blast
  moreover have "Source_eq (Source_init None) (VObj [(''start'', VInt 1)]) = Inr (VBool False)"
    by (simp add: Source_eq_def eq_body_def Source_init_def)
  ultimately show ?thesis by simp
qed

text \<open>
  A value that lacks one of the attributes \<open>__eq__\<close> reads never compares equal: the
  result is \<open>NotImplemented\<close>, or \<open>False\<close> when an earlier comparison has failed.
\<close>

lemma eq_missing_attribute:
  assumes "getattr other ''start'' = Inl AttributeError
     \<or> getattr other ''filename'' = Inl AttributeError
     \<or> getattr other ''is_dependency'' = Inl AttributeError
     \<or> getattr other ''end'' = Inl AttributeError"
  shows "Source_eq self other = Inr VNotImplemented \<or> Source_eq self other = Inr (VBool False)"
  using assms
  by (auto simp: Source_eq_def eq_body_def split: sum.splits dest: getattr_error)

text \<open>Between two spans \<open>__eq__\<close> compares \<open>start\<close>, the relative file name, the dependency flag and \<open>end\<close>.\<close>

lemma Source_eq_sources:
  "Source_eq a (Source_as_obj b) =
     Inr (VBool (start a = start b \<and> relative (filename a) = relative (filename b)
                 \<and> is_dependency a = is_dependency b \<and> end_src a = end_src b))"
  by (simp add: Source_eq_def eq_body_def Source_as_obj_def Filename_as_obj_def)

text \<open>
  Equal spans that both have \<open>end = start + length\<close> give \<open>hash\<close> the same tuple.
\<close>

lemma eq_hash_consistent:
  assumes "Source_eq a (Source_as_obj b) = Inr (VBool True)"
    and "end_src a = start a + length_src a" and "end_src b = start b + length_src b"
  shows "Source_hash py_hash a = Source_hash py_hash b"
proof -
  have "hash_key a = hash_key b"
    using assms by (auto simp: Source_eq_sources hash_key_def)
  then show ?thesis by (simp add: Source_hash_def)
qed

text \<open>
  C1. The spans decoded from \<open>10:5:999\<close> and \<open>10:7:999\<close>, file 999 unknown, are
  equal under \<open>__eq__\<close>: both have \<open>start = 10\<close>, \<open>end = 0\<close>, an empty file name and
  no dependency flag. The tuples \<open>__hash__\<close> hands to \<open>hash\<close> differ in the length,
  and so do the hashes under a \<open>hash\<close> that tells the tuples apart.
\<close>

theorem eq_hash_unresolved:
  "(case (convert_source_mapping ''10:5:999'' demo_cu, convert_source_mapping ''10:7:999'' demo_cu) of
      (Inr a, Inr b) \<Rightarrow>
        Source_eq a (Source_as_obj b) = Inr (VBool True)
        \<and> hash_key a = (10, 5, [], 0) \<and> hash_key b = (10, 7, [], 0)
        \<and> Source_hash id a \<noteq> Source_hash id b
    | _ \<Rightarrow> False)"
  by (simp add: decoder_defs demo_defs Source_eq_sources hash_key_def Source_hash_def)

section \<open>UTF-8: decoding undoes encoding\<close>

lemma unat_byte: "n < 256 \<Longrightarrow> unat (byte n) = n"
  by (simp add: byte_def unat_of_nat)

lemma split3: "(cp div 4096) * 4096 + (cp div 64 mod 64) * 64 + cp mod 64 = (cp::nat)"
proof -
  have "cp mod 4096 = 64 * (cp div 64 mod 64) + cp mod 64"
    using mod_mult2_eq [of cp 64 64] by simp
  then show ?thesis
    using div_mult_mod_eq [of cp 4096] by simp
qed

lemma split4:
  "(cp div 262144) * 262144 + (cp div 4096 mod 64) * 4096 + (cp div 64 mod 64) * 64 + cp mod 64
     = (cp::nat)"
proof -
  have "cp mod 4096 = 64 * (cp div 64 mod 64) + cp mod 64"
    using mod_mult2_eq [of cp 64 64] by simp
  moreover have "cp mod 262144 = 4096 * (cp div 4096 mod 64) + cp mod 4096"
    using mod_mult2_eq [of cp 4096 64] by simp
  ultimately show ?thesis
    using div_mult_mod_eq [of cp 262144] by simp
qed

lemma decode_step_encode:
  assumes "encode_code_point cp = Inr bs"
  shows "decode_step (bs @ rest) = Some (cp, rest)"
proof -
  consider "cp < 0x80" | "0x80 \<le> cp" "cp < 0x800" | "0x800 \<le> cp" "cp < 0xD800"
    | "0xDFFF < cp" "cp < 0x10000" | "0x10000 \<le> cp" "cp < 0x110000"
    using assms by (auto simp: encode_code_point_def split: if_splits)
  then show ?thesis
  proof cases
    case 1
    then show ?thesis using assms
      by (auto simp: encode_code_point_def decode_step_def unat_byte)
  next
    case 2
    then have b: "0xC0 + cp div 64 < 256" "0x80 + cp mod 64 < 256" "2 \<le> cp div 64"
      "cp div 64 < 32"
      by simp_all
    have bs: "bs = [byte (0xC0 + cp div 64), byte (0x80 + cp mod 64)]"
      using 2 assms by (simp add: encode_code_point_def)
    show ?thesis
      using b 2 by (simp add: bs decode_step_def is_cont_def unat_byte Let_def)
  next
    case 3
    then have b: "0xE0 + cp div 4096 < 256" "0x80 + cp div 64 mod 64 < 256"
      "0x80 + cp mod 64 < 256" "cp div 4096 < 16"
      by simp_all
    have bs: "bs = [byte (0xE0 + cp div 4096), byte (0x80 + cp div 64 mod 64),
        byte (0x80 + cp mod 64)]"
      using 3 assms by (simp add: encode_code_point_def)
    show ?thesis
      using b 3 split3 [of cp]
      by (simp add: bs decode_step_def is_cont_def unat_byte Let_def)
  next
    case 4
    then have b: "0xE0 + cp div 4096 < 256" "0x80 + cp div 64 mod 64 < 256"
      "0x80 + cp mod 64 < 256" "cp div 4096 < 16"
      by simp_all
    have bs: "bs = [byte (0xE0 + cp div 4096), byte (0x80 + cp div 64 mod 64),
        byte (0x80 + cp mod 64)]"
      using 4 assms by (simp add: encode_code_point_def)
    show ?thesis
      using b 4 split3 [of cp]
      by (simp add: bs decode_step_def is_cont_def unat_byte Let_def)
  next
    case 5
    then have b: "0xF0 + cp div 262144 < 256" "0x80 + cp div 4096 mod 64 < 256"
      "0x80 + cp div 64 mod 64 < 256" "0x80 + cp mod 64 < 256" "cp div 262144 < 5"
      by simp_all
    have bs: "bs = [byte (0xF0 + cp div 262144), byte (0x80 + cp div 4096 mod 64),
        byte (0x80 + cp div 64 mod 64), byte (0x80 + cp mod 64)]"
      using 5 assms by (simp add: encode_code_point_def)
    show ?thesis
      using b 5 split4 [of cp]
      by (simp add: bs decode_step_def is_cont_def unat_byte Let_def)
  qed
qed

lemma encode_code_point_nonempty: "encode_code_point cp = Inr bs \<Longrightarrow> bs \<noteq> []"
  by (auto simp: encode_code_point_def split: if_splits)

lemma utf8_decode_step:
  assumes "bs \<noteq> []"
  shows "utf8_decode bs =
     (case decode_step bs of
        None \<Rightarrow> Inl UnicodeDecodeError
      | Some (cp, rest) \<Rightarrow>
          (case utf8_decode rest of Inl e \<Rightarrow> Inl e | Inr cps \<Rightarrow> Inr (cp # cps)))"
  using assms by (cases bs) simp_all

lemma utf8_roundtrip: "utf8_encode cps = Inr bs \<Longrightarrow> utf8_decode bs = Inr cps"
proof (induction cps arbitrary: bs)
  case Nil
  then show ?case by simp
next
  case (Cons cp cps)
  from Cons.prems obtain b1 rest where e: "encode_code_point cp = Inr b1"
    and r: "utf8_encode cps = Inr rest" and bs: "bs = b1 @ rest"
    by (auto split: sum.splits)
  have ne: "b1 @ rest \<noteq> []"
    using encode_code_point_nonempty [OF e] by simp
  show ?case
    unfolding bs utf8_decode_step [OF ne] decode_step_encode [OF e]
    using Cons.IH [OF r] by simp
qed

lemma utf8_encode_append:
  "utf8_encode (xs @ ys) =
     (case utf8_encode xs of
        Inl e \<Rightarrow> Inl e
      | Inr bx \<Rightarrow> (case utf8_encode ys of Inl e \<Rightarrow> Inl e | Inr by' \<Rightarrow> Inr (bx @ by')))"
  by (induction xs) (auto split: sum.splits)

lemma py_slice_nonneg:
  assumes "0 \<le> i" and "i \<le> j"
  shows "py_slice xs i j = take (nat (j - i)) (drop (nat i) xs)"
proof (cases "i \<le> int (length xs)")
  case True
  with assms show ?thesis
    by (auto simp: py_slice_def Let_def min_def)
next
  case False
  with assms show ?thesis
    by (auto simp: py_slice_def Let_def min_def)
qed

section \<open>UTF-8: encoding undoes decoding\<close>

text \<open>
  What the strict decoder accepts is the encoding of the code points it returns, so
  a decoded text can always be encoded again.
\<close>

lemma byte_unat: "byte (unat b) = b"
  by (simp add: byte_def)

lemma digits2:
  fixes a r :: nat
  assumes "r < 64"
  shows "(a * 64 + r) div 64 = a" and "(a * 64 + r) mod 64 = r"
  using assms by simp_all

lemma digits3:
  fixes a r1 r2 :: nat
  assumes "r1 < 64" and "r2 < 64"
  shows "(a * 4096 + r1 * 64 + r2) div 4096 = a"
    and "(a * 4096 + r1 * 64 + r2) div 64 mod 64 = r1"
    and "(a * 4096 + r1 * 64 + r2) mod 64 = r2"
proof -
  have e: "a * 4096 + r1 * 64 + r2 = (a * 64 + r1) * 64 + r2"
    by simp
  note inner = digits2 [OF assms(2), of "a * 64 + r1"]
  note outer = digits2 [OF assms(1), of a]
  have d: "(a * 4096 + r1 * 64 + r2) div 64 = a * 64 + r1"
    by (simp only: e inner)
  show "(a * 4096 + r1 * 64 + r2) div 64 mod 64 = r1"
    by (simp only: d outer)
  show "(a * 4096 + r1 * 64 + r2) mod 64 = r2"
    by (simp only: e inner)
  have "(a * 4096 + r1 * 64 + r2) div 4096 = (a * 4096 + r1 * 64 + r2) div 64 div 64"
    using div_mult2_eq [of "a * 4096 + r1 * 64 + r2" 64 64] by simp
  then show "(a * 4096 + r1 * 64 + r2) div 4096 = a"
    by (simp only: d outer)
qed

lemma digits4:
  fixes a r1 r2 r3 :: nat
  assumes "r1 < 64" and "r2 < 64" and "r3 < 64"
  shows "(a * 262144 + r1 * 4096 + r2 * 64 + r3) div 262144 = a"
    and "(a * 262144 + r1 * 4096 + r2 * 64 + r3) div 4096 mod 64 = r1"
    and "(a * 262144 + r1 * 4096 + r2 * 64 + r3) div 64 mod 64 = r2"
    and "(a * 262144 + r1 * 4096 + r2 * 64 + r3) mod 64 = r3"
proof -
  have e: "a * 262144 + r1 * 4096 + r2 * 64 + r3 = (a * 64 + r1) * 4096 + r2 * 64 + r3"
    by simp
  note inner = digits3 [OF assms(2) assms(3), of "a * 64 + r1"]
  note outer = digits2 [OF assms(1), of a]
  show "(a * 262144 + r1 * 4096 + r2 * 64 + r3) div 64 mod 64 = r2"
    by (simp only: e inner)
  show "(a * 262144 + r1 * 4096 + r2 * 64 + r3) mod 64 = r3"
    by (simp only: e inner)
  have d: "(a * 262144 + r1 * 4096 + r2 * 64 + r3) div 4096 = a * 64 + r1"
    by (simp only: e inner)
  show "(a * 262144 + r1 * 4096 + r2 * 64 + r3) div 4096 mod 64 = r1"
    by (simp only: d outer)
  have "(a * 262144 + r1 * 4096 + r2 * 64 + r3) div 262144
      = (a * 262144 + r1 * 4096 + r2 * 64 + r3) div 4096 div 64"
    using div_mult2_eq [of "a * 262144 + r1 * 4096 + r2 * 64 + r3" 4096 64] by simp
  then show "(a * 262144 + r1 * 4096 + r2 * 64 + r3) div 262144 = a"
    by (simp only: d outer)
qed

lemma cont_byte:
  assumes "is_cont c"
  shows "unat c - 0x80 < 64" and "byte (0x80 + (unat c - 0x80)) = c"
proof -
  show "unat c - 0x80 < 64" using assms unfolding is_cont_def by linarith
  have "0x80 + (unat c - 0x80) = unat c" using assms by (simp add: is_cont_def)
  then show "byte (0x80 + (unat c - 0x80)) = c" by (simp only: byte_unat)
qed

lemma lead_byte:
  assumes "k \<le> unat b"
  shows "byte (k + (unat b - k)) = b"
proof -
  have "k + (unat b - k) = unat b" using assms by simp
  then show ?thesis by (simp only: byte_unat)
qed

lemma encode_decode_step:
  assumes "decode_step bs = Some (cp, rest)"
  shows "\<exists>b1. encode_code_point cp = Inr b1 \<and> bs = b1 @ rest"
proof -
  obtain b r where bs: "bs = b # r"
    using assms by (cases bs) (simp_all add: decode_step_def)
  consider (one) "unat b < 0x80" | (two) "0xC2 \<le> unat b" "unat b < 0xE0"
    | (three) "0xE0 \<le> unat b" "unat b < 0xF0" | (four) "0xF0 \<le> unat b" "unat b < 0xF5"
    using assms unfolding bs decode_step_def Let_def
    by (cases "unat b < 0x80"; cases "unat b < 0xC2"; cases "unat b < 0xE0";
        cases "unat b < 0xF0"; cases "unat b < 0xF5") simp_all
  then show ?thesis
  proof cases
    case one
    then have "cp = unat b" "rest = r"
      using assms by (simp_all add: bs decode_step_def)
    then show ?thesis
      using one by (simp add: bs encode_code_point_def byte_unat)
  next
    case two
    then obtain c1 where r: "r = c1 # rest" and c1: "is_cont c1"
      and cp: "cp = (unat b - 0xC0) * 64 + (unat c1 - 0x80)"
      using assms unfolding bs decode_step_def Let_def
      by (cases r) (auto split: if_splits)
    note d = digits2 [OF cont_byte(1) [OF c1], of "unat b - 0xC0"]
    have lo: "2 \<le> unat b - 0xC0" and hi: "unat b - 0xC0 < 32"
      using two by simp_all
    have "0x80 \<le> cp" using lo unfolding cp by simp
    moreover have "cp < 0x800" using hi cont_byte(1) [OF c1] unfolding cp by simp
    ultimately have "encode_code_point cp =
        Inr [byte (0xC0 + (unat b - 0xC0)), byte (0x80 + (unat c1 - 0x80))]"
      by (simp add: encode_code_point_def d [folded cp])
    moreover have "0xC0 \<le> unat b" using two by simp
    ultimately show ?thesis
      using lead_byte [of "0xC0" b] cont_byte(2) [OF c1] by (simp add: bs r)
  next
    case three
    then obtain c1 c2 where r: "r = c1 # c2 # rest" and c1: "is_cont c1" and c2: "is_cont c2"
      and cp: "cp = (unat b - 0xE0) * 4096 + (unat c1 - 0x80) * 64 + (unat c2 - 0x80)"
      and valid: "0x800 \<le> cp" "cp < 0xD800 \<or> 0xDFFF < cp"
      using assms unfolding bs decode_step_def Let_def
      by (cases r; cases "tl r") (auto split: if_splits)
    note d = digits3 [OF cont_byte(1) [OF c1] cont_byte(1) [OF c2], of "unat b - 0xE0"]
    have hi: "unat b - 0xE0 < 16" using three by simp
    have "cp < 0x10000"
      using hi cont_byte(1) [OF c1] cont_byte(1) [OF c2] unfolding cp by simp
    then have "encode_code_point cp =
        Inr [byte (0xE0 + (unat b - 0xE0)), byte (0x80 + (unat c1 - 0x80)),
             byte (0x80 + (unat c2 - 0x80))]"
      using valid by (auto simp: encode_code_point_def d [folded cp])
    then show ?thesis
      using lead_byte [OF three(1)] cont_byte(2) [OF c1] cont_byte(2) [OF c2]
      by (simp add: bs r)
  next
    case four
    then obtain c1 c2 c3 where r: "r = c1 # c2 # c3 # rest"
      and c1: "is_cont c1" and c2: "is_cont c2" and c3: "is_cont c3"
      and cp: "cp = (unat b - 0xF0) * 262144 + (unat c1 - 0x80) * 4096
                 + (unat c2 - 0x80) * 64 + (unat c3 - 0x80)"
      and valid: "0x10000 \<le> cp" "cp < 0x110000"
      using assms unfolding bs decode_step_def Let_def
      by (cases r; cases "tl r"; cases "tl (tl r)") (auto split: if_splits)
    note d = digits4 [OF cont_byte(1) [OF c1] cont_byte(1) [OF c2] cont_byte(1) [OF c3],
        of "unat b - 0xF0"]
    have "encode_code_point cp =
        Inr [byte (0xF0 + (unat b - 0xF0)), byte (0x80 + (unat c1 - 0x80)),
             byte (0x80 + (unat c2 - 0x80)), byte (0x80 + (unat c3 - 0x80))]"
      using valid by (auto simp: encode_code_point_def d [folded cp])
    then show ?thesis
      using lead_byte [OF four(1)] cont_byte(2) [OF c1] cont_byte(2) [OF c2]
        cont_byte(2) [OF c3]
      by (simp add: bs r)
  qed
qed

lemma utf8_decode_encode: "utf8_decode bs = Inr cps \<Longrightarrow> utf8_encode cps = Inr bs"
proof (induction bs arbitrary: cps rule: utf8_decode.induct)
  case 1
  then show ?case by simp
next
  case (2 b bs)
  from "2.prems" obtain cp rest cps' where st: "decode_step (b # bs) = Some (cp, rest)"
    and dr: "utf8_decode rest = Inr cps'" and cps: "cps = cp # cps'"
    by (auto split: option.splits sum.splits)
  obtain b1 where e: "encode_code_point cp = Inr b1" and bb: "b # bs = b1 @ rest"
    using encode_decode_step [OF st] by blast
  have "utf8_encode cps' = Inr rest"
    using "2.IH" [OF st refl dr] .
  then show ?case
    using e bb by (simp add: cps)
qed

section \<open>\<open>content\<close> and \<open>content_hash\<close>: properties\<close>

lemma demo_span_decoded: "convert_source_mapping ''10:4:0'' demo_cu = Inr demo_span"
  by (simp add: decoder_defs demo_defs demo_span_def upto_rec1)

lemma demo_text_bytes:
  "utf8_encode demo_text =
     Inr (map byte [47, 47, 32, 195, 169, 116, 195, 169, 33, 10,
                    117, 105, 110, 116, 32, 120, 61, 49, 59, 10])"
  by (simp add: demo_text_def encode_code_point_def)

lemma demo_pre_bytes:
  "utf8_encode [47, 47, 32, 233, 116, 233, 33, 10] =
     Inr (map byte [47, 47, 32, 195, 169, 116, 195, 169, 33, 10])"
  by (simp add: encode_code_point_def)

lemma demo_mid_bytes: "utf8_encode [117, 105, 110, 116] = Inr (map byte [117, 105, 110, 116])"
  by (simp add: encode_code_point_def)

text \<open>
  C8. For a span with a context, a text under its absolute file name and
  \<open>0 \<le> start \<le> end\<close>, as the decoder makes resolved spans, \<open>content\<close> is the
  decoding of the bytes \<open>start\<close> to \<open>end\<close> of the encoded text. Where the text is
  \<open>pre @ mid @ post\<close>, \<open>start\<close> is the number of bytes of \<open>pre\<close> and the span is as
  long as the bytes of \<open>mid\<close>, \<open>content\<close> is \<open>mid\<close>, whatever multi-byte characters
  \<open>pre\<close> holds.
\<close>

theorem content_byte_slice:
  assumes "compilation_unit sp = Some cu"
    and "source_code (core cu) (absolute (filename sp)) = Some txt"
    and "utf8_encode txt = Inr bs"
    and "0 \<le> start sp" and "start sp \<le> end_src sp"
  shows "content sp = utf8_decode (take (nat (end_src sp - start sp)) (drop (nat (start sp)) bs))
     \<and> (\<forall>pre mid post bp bm.
           txt = pre @ mid @ post \<longrightarrow> utf8_encode pre = Inr bp \<longrightarrow> utf8_encode mid = Inr bm \<longrightarrow>
           start sp = int (length bp) \<longrightarrow> end_src sp = start sp + int (length bm) \<longrightarrow>
           content sp = Inr mid)"
proof -
  have slice: "content sp =
      utf8_decode (take (nat (end_src sp - start sp)) (drop (nat (start sp)) bs))"
    using assms by (simp add: content_def py_slice_nonneg)
  have sub: "content sp = Inr mid"
    if split: "txt = pre @ mid @ post" and bp: "utf8_encode pre = Inr bp"
      and bm: "utf8_encode mid = Inr bm"
      and s: "start sp = int (length bp)" and e: "end_src sp = start sp + int (length bm)"
    for pre mid post bp bm
  proof -
    obtain bq where bq: "utf8_encode post = Inr bq" and bs: "bs = bp @ bm @ bq"
      using assms(3) bp bm unfolding split utf8_encode_append
      by (auto split: sum.splits)
    have "take (nat (end_src sp - start sp)) (drop (nat (start sp)) bs) = bm"
      by (simp add: s e bs)
    then show ?thesis
      using slice utf8_roundtrip [OF bm] by simp
  qed
  show ?thesis
    using slice sub by blast
qed

text \<open>
  The span of \<open>uint\<close> after a line with two two-byte characters; the slice of the
  code points at the same indices is another string.
\<close>

theorem content_byte_slice_witness:
  "content demo_span = Inr [117, 105, 110, 116]
   \<and> take 4 (drop 10 demo_text) = [110, 116, 32, 120]"
proof -
  have h: "compilation_unit demo_span = Some demo_cu"
    "source_code (core demo_cu) (absolute (filename demo_span)) = Some demo_text"
    "0 \<le> start demo_span" "start demo_span \<le> end_src demo_span"
    by (simp_all add: demo_span_def demo_cu_def demo_file_def)
  have t: "demo_text = [47, 47, 32, 233, 116, 233, 33, 10] @ [117, 105, 110, 116]
      @ [32, 120, 61, 49, 59, 10]"
    by (simp add: demo_text_def)
  have s: "start demo_span =
        int (length (map byte [47, 47, 32, 195, 169, 116, 195, 169, 33, 10]))"
    "end_src demo_span = start demo_span + int (length (map byte [117, 105, 110, 116]))"
    by (simp_all add: demo_span_def)
  have "content demo_span = Inr [117, 105, 110, 116]"
    using content_byte_slice [OF h(1) h(2) demo_text_bytes h(3) h(4)]
      t demo_pre_bytes demo_mid_bytes s
    by blast
  then show ?thesis by (simp add: demo_text_def)
qed

lemma length_hexdigest: "length (hexdigest d) = 2 * length d"
  by (induction d) (simp_all add: hexdigest_def hex_byte_def)

lemma length_sha1: "length (sha1 msg) = 20"
  by (simp add: sha1_def Let_def be_bytes32_def split: prod.splits)

lemma hex_nibble: "n < 16 \<Longrightarrow> is_hex_char (''0123456789abcdef'' ! n)"
proof -
  assume "n < 16"
  then have "n < length ''0123456789abcdef''" by simp
  then have "''0123456789abcdef'' ! n \<in> set ''0123456789abcdef''" by (rule nth_mem)
  then show ?thesis by (simp only: is_hex_char_def)
qed

lemma hex_byte_chars: "list_all is_hex_char (hex_byte b)"
proof -
  have "unat b < 256" using unsigned_less [of b] by simp
  then have "unat b div 16 < 16" "unat b mod 16 < 16" by simp_all
  then show ?thesis by (simp add: hex_byte_def hex_nibble)
qed

lemma hexdigest_chars: "list_all is_hex_char (hexdigest d)"
  by (induction d) (simp_all add: hexdigest_def hex_byte_chars)

text \<open>Where \<open>content\<close> returns, \<open>content_hash\<close> returns too.\<close>

lemma content_hash_returns:
  assumes "content sp = Inr c"
  shows "\<exists>h. content_hash sp = Inr h"
proof -
  obtain bs where "utf8_decode bs = Inr c"
    using assms by (auto simp: content_def split: option.splits sum.splits)
  then have "utf8_encode c = Inr bs" by (rule utf8_decode_encode)
  then show ?thesis using assms by (simp add: content_hash_def)
qed

section \<open>SHA-1: reference digests\<close>

text \<open>
  The digests of the two examples of the standard, one of one block and one of two,
  and of the content of the span above, each computed block by block: padding, the
  sixteen words of a block, its schedule of eighty words, the eighty rounds, the
  new state.
\<close>

lemma split_blocks_numeral:
  "split_blocks (numeral k) sz xs = take sz xs # split_blocks (pred_numeral k) sz (drop sz xs)"
  by (simp add: numeral_eq_Suc)

lemma expand_numeral:
  "expand (numeral k) w =
     expand (pred_numeral k)
       (w @ [rotl 1 (w ! (length w - 3) XOR w ! (length w - 8) XOR w ! (length w - 14)
                     XOR w ! (length w - 16))])"
  by (simp add: numeral_eq_Suc Let_def)

lemma replicate_numeral: "replicate (numeral k) x = x # replicate (pred_numeral k) x"
  by (simp add: numeral_eq_Suc)

lemma upt_80: "[0..<80] = [0..<16] @ [16..<32] @ [32..<48] @ [48..<64] @ [64..<80]"
  by (simp add: upt_rec)

lemma upt_16:
  "[0..<16] = [0, 1, 2, 3, 4, 5, 6, 7, 8, 9, 10, 11, 12, 13, 14, 15]"
  "[16..<32] = [16, 17, 18, 19, 20, 21, 22, 23, 24, 25, 26, 27, 28, 29, 30, 31]"
  "[32..<48] = [32, 33, 34, 35, 36, 37, 38, 39, 40, 41, 42, 43, 44, 45, 46, 47]"
  "[48..<64] = [48, 49, 50, 51, 52, 53, 54, 55, 56, 57, 58, 59, 60, 61, 62, 63]"
  "[64..<80] = [64, 65, 66, 67, 68, 69, 70, 71, 72, 73, 74, 75, 76, 77, 78, 79]"
  by (simp_all add: upt_rec)

text \<open>The message \<open>abc\<close> of the standard.\<close>

lemma abc_pad:
  "sha1_pad [97, 98, 99] =
     [97, 98, 99, 128, 0, 0, 0, 0, 0, 0, 0, 0,
      0, 0, 0, 0, 0, 0, 0, 0, 0, 0, 0, 0,
      0, 0, 0, 0, 0, 0, 0, 0, 0, 0, 0, 0,
      0, 0, 0, 0, 0, 0, 0, 0, 0, 0, 0, 0,
      0, 0, 0, 0, 0, 0, 0, 0, 0, 0, 0, 0,
      0, 0, 0, 24]"
  by (simp add: sha1_pad_def be_bytes64_def upt_rec replicate_numeral)

lemma abc_blocks:
  "split_blocks (length [97, 98, 99, 128, 0, 0, 0, 0, 0, 0, 0, 0,
      0, 0, 0, 0, 0, 0, 0, 0, 0, 0, 0, 0,
      0, 0, 0, 0, 0, 0, 0, 0, 0, 0, 0, 0,
      0, 0, 0, 0, 0, 0, 0, 0, 0, 0, 0, 0,
      0, 0, 0, 0, 0, 0, 0, 0, 0, 0, 0, 0,
      0, 0, 0, 24] div 64) 64
     [97, 98, 99, 128, 0, 0, 0, 0, 0, 0, 0, 0,
      0, 0, 0, 0, 0, 0, 0, 0, 0, 0, 0, 0,
      0, 0, 0, 0, 0, 0, 0, 0, 0, 0, 0, 0,
      0, 0, 0, 0, 0, 0, 0, 0, 0, 0, 0, 0,
      0, 0, 0, 0, 0, 0, 0, 0, 0, 0, 0, 0,
      0, 0, 0, 24] =
     [[97, 98, 99, 128, 0, 0, 0, 0, 0, 0, 0, 0,
      0, 0, 0, 0, 0, 0, 0, 0, 0, 0, 0, 0,
      0, 0, 0, 0, 0, 0, 0, 0, 0, 0, 0, 0,
      0, 0, 0, 0, 0, 0, 0, 0, 0, 0, 0, 0,
      0, 0, 0, 0, 0, 0, 0, 0, 0, 0, 0, 0,
      0, 0, 0, 24]]"
  by (simp add: split_blocks_numeral)

lemma abc_words_1:
  "map be32 (split_blocks 16 4
     [97, 98, 99, 128, 0, 0, 0, 0, 0, 0, 0, 0,
      0, 0, 0, 0, 0, 0, 0, 0, 0, 0, 0, 0,
      0, 0, 0, 0, 0, 0, 0, 0, 0, 0, 0, 0,
      0, 0, 0, 0, 0, 0, 0, 0, 0, 0, 0, 0,
      0, 0, 0, 0, 0, 0, 0, 0, 0, 0, 0, 0,
      0, 0, 0, 24]) =
     [1633837952, 0, 0, 0, 0, 0,
      0, 0, 0, 0, 0, 0,
      0, 0, 0, 24]"
  by (simp add: split_blocks_numeral be32_def)

lemma abc_schedule_1:
  "expand 64
     [1633837952, 0, 0, 0, 0, 0,
      0, 0, 0, 0, 0, 0,
      0, 0, 0, 24] =
     [1633837952, 0, 0, 0, 0, 0,
      0, 0, 0, 0, 0, 0,
      0, 0, 0, 24, 3267675904, 0,
      48, 2240384513, 0, 96, 185801731, 48,
      2240384705, 371603462, 0, 384, 743206924, 240,
      2477765895, 1486413896, 2392494594, 1536, 2972827888, 371604422,
      1321128990, 1650688161, 371603462, 6336, 3537975492, 3840,
      989548665, 2307785957, 3803855915, 24768, 87701453, 1950713159,
      3667138029, 641206806, 1650688929, 1321161950, 943043659, 62976,
      512018339, 2564836760, 1696405152, 1650822305, 1166361814, 1146637495,
      2074109465, 1669377698, 182801001, 1652246945, 2094292125, 983040,
      4216354106, 3966199272, 3124505570, 6340608, 976735493, 1166362356,
      3092880854, 940186150, 31465987, 3888919638, 3873835881, 16124416,
      1469443919, 2184054905]"
  by (simp add: expand_numeral rotl_def)

lemma abc_rounds_1:
  "foldl (sha1_round
     [1633837952, 0, 0, 0, 0, 0,
      0, 0, 0, 0, 0, 0,
      0, 0, 0, 24, 3267675904, 0,
      48, 2240384513, 0, 96, 185801731, 48,
      2240384705, 371603462, 0, 384, 743206924, 240,
      2477765895, 1486413896, 2392494594, 1536, 2972827888, 371604422,
      1321128990, 1650688161, 371603462, 6336, 3537975492, 3840,
      989548665, 2307785957, 3803855915, 24768, 87701453, 1950713159,
      3667138029, 641206806, 1650688929, 1321161950, 943043659, 62976,
      512018339, 2564836760, 1696405152, 1650822305, 1166361814, 1146637495,
      2074109465, 1669377698, 182801001, 1652246945, 2094292125, 983040,
      4216354106, 3966199272, 3124505570, 6340608, 976735493, 1166362356,
      3092880854, 940186150, 31465987, 3888919638, 3873835881, 16124416,
      1469443919, 2184054905])
     (1732584193, 4023233417, 2562383102, 271733878, 3285377520) [0..<80] =
     (1112808245, 1463342561, 562251891, 1746824694, 3640522413)"
  by (simp add: upt_80 upt_16 sha1_round_def sha1_f_def sha1_k_def rotl_def)

lemma abc_compress_1:
  "sha1_compress (1732584193, 4023233417, 2562383102, 271733878, 3285377520)
     [97, 98, 99, 128, 0, 0, 0, 0, 0, 0, 0, 0,
      0, 0, 0, 0, 0, 0, 0, 0, 0, 0, 0, 0,
      0, 0, 0, 0, 0, 0, 0, 0, 0, 0, 0, 0,
      0, 0, 0, 0, 0, 0, 0, 0, 0, 0, 0, 0,
      0, 0, 0, 0, 0, 0, 0, 0, 0, 0, 0, 0,
      0, 0, 0, 24] =
     (2845392438, 1191608682, 3124634993, 2018558572, 2630932637)"
  unfolding sha1_compress_def Let_def abc_words_1 abc_schedule_1 abc_rounds_1
  by simp

lemma abc_digest:
  "sha1 [97, 98, 99] =
     [169, 153, 62, 54, 71, 6, 129, 106, 186, 62, 37, 113,
      120, 80, 194, 108, 156, 208, 216, 157]"
  unfolding sha1_def Let_def abc_pad abc_blocks sha1_init_def
  by (simp add: abc_compress_1 be_bytes32_def)

lemma abc_hexdigest:
  "hexdigest (sha1 [97, 98, 99]) =
     ''a9993e364706816aba3e25717850c26c9cd0d89d''"
  by (simp add: abc_digest hexdigest_def hex_byte_def)

text \<open>The message \<open>uint\<close>.\<close>

lemma uint_pad:
  "sha1_pad [117, 105, 110, 116] =
     [117, 105, 110, 116, 128, 0, 0, 0, 0, 0, 0, 0,
      0, 0, 0, 0, 0, 0, 0, 0, 0, 0, 0, 0,
      0, 0, 0, 0, 0, 0, 0, 0, 0, 0, 0, 0,
      0, 0, 0, 0, 0, 0, 0, 0, 0, 0, 0, 0,
      0, 0, 0, 0, 0, 0, 0, 0, 0, 0, 0, 0,
      0, 0, 0, 32]"
  by (simp add: sha1_pad_def be_bytes64_def upt_rec replicate_numeral)

lemma uint_blocks:
  "split_blocks (length [117, 105, 110, 116, 128, 0, 0, 0, 0, 0, 0, 0,
      0, 0, 0, 0, 0, 0, 0, 0, 0, 0, 0, 0,
      0, 0, 0, 0, 0, 0, 0, 0, 0, 0, 0, 0,
      0, 0, 0, 0, 0, 0, 0, 0, 0, 0, 0, 0,
      0, 0, 0, 0, 0, 0, 0, 0, 0, 0, 0, 0,
      0, 0, 0, 32] div 64) 64
     [117, 105, 110, 116, 128, 0, 0, 0, 0, 0, 0, 0,
      0, 0, 0, 0, 0, 0, 0, 0, 0, 0, 0, 0,
      0, 0, 0, 0, 0, 0, 0, 0, 0, 0, 0, 0,
      0, 0, 0, 0, 0, 0, 0, 0, 0, 0, 0, 0,
      0, 0, 0, 0, 0, 0, 0, 0, 0, 0, 0, 0,
      0, 0, 0, 32] =
     [[117, 105, 110, 116, 128, 0, 0, 0, 0, 0, 0, 0,
      0, 0, 0, 0, 0, 0, 0, 0, 0, 0, 0, 0,
      0, 0, 0, 0, 0, 0, 0, 0, 0, 0, 0, 0,
      0, 0, 0, 0, 0, 0, 0, 0, 0, 0, 0, 0,
      0, 0, 0, 0, 0, 0, 0, 0, 0, 0, 0, 0,
      0, 0, 0, 32]]"
  by (simp add: split_blocks_numeral)

lemma uint_words_1:
  "map be32 (split_blocks 16 4
     [117, 105, 110, 116, 128, 0, 0, 0, 0, 0, 0, 0,
      0, 0, 0, 0, 0, 0, 0, 0, 0, 0, 0, 0,
      0, 0, 0, 0, 0, 0, 0, 0, 0, 0, 0, 0,
      0, 0, 0, 0, 0, 0, 0, 0, 0, 0, 0, 0,
      0, 0, 0, 0, 0, 0, 0, 0, 0, 0, 0, 0,
      0, 0, 0, 32]) =
     [1969843828, 2147483648, 0, 0, 0, 0,
      0, 0, 0, 0, 0, 0,
      0, 0, 0, 32]"
  by (simp add: split_blocks_numeral be32_def)

lemma uint_schedule_1:
  "expand 64
     [1969843828, 2147483648, 0, 0, 0, 0,
      0, 0, 0, 0, 0, 0,
      0, 0, 0, 32] =
     [1969843828, 2147483648, 0, 0, 0, 0,
      0, 0, 0, 0, 0, 0,
      0, 0, 0, 32, 3939687656, 1,
      64, 3584408017, 2, 128, 2873848739, 68,
      3584407761, 1452730181, 8, 512, 2905460366, 336,
      2201180822, 1515953623, 2129578578, 2054, 3031907130, 1452728839,
      214788690, 1768846685, 1452730311, 8456, 2219446189, 5384,
      859154792, 2780421621, 1168627332, 33124, 501569004, 1073267898,
      2619801410, 2531743178, 1768847733, 214920154, 305536439, 88200,
      2280500409, 1537071642, 1454375454, 1768317725, 2294528262, 4287392427,
      1176894340, 1853180065, 4081375609, 1766810077, 2602277137, 1378536,
      900298803, 3501425104, 2815853765, 8479744, 3847613469, 4173641791,
      2345831442, 3881163398, 118949148, 2502975377, 3955554685, 22581440,
      813033416, 4105457902]"
  by (simp add: expand_numeral rotl_def)

lemma uint_rounds_1:
  "foldl (sha1_round
     [1969843828, 2147483648, 0, 0, 0, 0,
      0, 0, 0, 0, 0, 0,
      0, 0, 0, 32, 3939687656, 1,
      64, 3584408017, 2, 128, 2873848739, 68,
      3584407761, 1452730181, 8, 512, 2905460366, 336,
      2201180822, 1515953623, 2129578578, 2054, 3031907130, 1452728839,
      214788690, 1768846685, 1452730311, 8456, 2219446189, 5384,
      859154792, 2780421621, 1168627332, 33124, 501569004, 1073267898,
      2619801410, 2531743178, 1768847733, 214920154, 305536439, 88200,
      2280500409, 1537071642, 1454375454, 1768317725, 2294528262, 4287392427,
      1176894340, 1853180065, 4081375609, 1766810077, 2602277137, 1378536,
      900298803, 3501425104, 2815853765, 8479744, 3847613469, 4173641791,
      2345831442, 3881163398, 118949148, 2502975377, 3955554685, 22581440,
      813033416, 4105457902])
     (1732584193, 4023233417, 2562383102, 271733878, 3285377520) [0..<80] =
     (2509677951, 3557398982, 3794967913, 469931852, 1971545778)"
  by (simp add: upt_80 upt_16 sha1_round_def sha1_f_def sha1_k_def rotl_def)

lemma uint_compress_1:
  "sha1_compress (1732584193, 4023233417, 2562383102, 271733878, 3285377520)
     [117, 105, 110, 116, 128, 0, 0, 0, 0, 0, 0, 0,
      0, 0, 0, 0, 0, 0, 0, 0, 0, 0, 0, 0,
      0, 0, 0, 0, 0, 0, 0, 0, 0, 0, 0, 0,
      0, 0, 0, 0, 0, 0, 0, 0, 0, 0, 0, 0,
      0, 0, 0, 0, 0, 0, 0, 0, 0, 0, 0, 0,
      0, 0, 0, 32] =
     (4242262144, 3285665103, 2062383719, 741665730, 961956002)"
  unfolding sha1_compress_def Let_def uint_words_1 uint_schedule_1 uint_rounds_1
  by simp

lemma uint_digest:
  "sha1 [117, 105, 110, 116] =
     [252, 219, 200, 128, 195, 215, 69, 79, 122, 237, 122, 103,
      44, 52, 235, 194, 57, 86, 72, 162]"
  unfolding sha1_def Let_def uint_pad uint_blocks sha1_init_def
  by (simp add: uint_compress_1 be_bytes32_def)

lemma uint_hexdigest:
  "hexdigest (sha1 [117, 105, 110, 116]) =
     ''fcdbc880c3d7454f7aed7a672c34ebc2395648a2''"
  by (simp add: uint_digest hexdigest_def hex_byte_def)

text \<open>The 56-byte message of the standard, which takes two blocks.\<close>

lemma two_blocks_pad:
  "sha1_pad [97, 98, 99, 100, 98, 99, 100, 101, 99, 100, 101, 102,
      100, 101, 102, 103, 101, 102, 103, 104, 102, 103, 104, 105,
      103, 104, 105, 106, 104, 105, 106, 107, 105, 106, 107, 108,
      106, 107, 108, 109, 107, 108, 109, 110, 108, 109, 110, 111,
      109, 110, 111, 112, 110, 111, 112, 113] =
     [97, 98, 99, 100, 98, 99, 100, 101, 99, 100, 101, 102,
      100, 101, 102, 103, 101, 102, 103, 104, 102, 103, 104, 105,
      103, 104, 105, 106, 104, 105, 106, 107, 105, 106, 107, 108,
      106, 107, 108, 109, 107, 108, 109, 110, 108, 109, 110, 111,
      109, 110, 111, 112, 110, 111, 112, 113, 128, 0, 0, 0,
      0, 0, 0, 0, 0, 0, 0, 0, 0, 0, 0, 0,
      0, 0, 0, 0, 0, 0, 0, 0, 0, 0, 0, 0,
      0, 0, 0, 0, 0, 0, 0, 0, 0, 0, 0, 0,
      0, 0, 0, 0, 0, 0, 0, 0, 0, 0, 0, 0,
      0, 0, 0, 0, 0, 0, 0, 0, 0, 0, 0, 0,
      0, 0, 0, 0, 0, 0, 1, 192]"
  by (simp add: sha1_pad_def be_bytes64_def upt_rec replicate_numeral)

lemma two_blocks_blocks:
  "split_blocks (length [97, 98, 99, 100, 98, 99, 100, 101, 99, 100, 101, 102,
      100, 101, 102, 103, 101, 102, 103, 104, 102, 103, 104, 105,
      103, 104, 105, 106, 104, 105, 106, 107, 105, 106, 107, 108,
      106, 107, 108, 109, 107, 108, 109, 110, 108, 109, 110, 111,
      109, 110, 111, 112, 110, 111, 112, 113, 128, 0, 0, 0,
      0, 0, 0, 0, 0, 0, 0, 0, 0, 0, 0, 0,
      0, 0, 0, 0, 0, 0, 0, 0, 0, 0, 0, 0,
      0, 0, 0, 0, 0, 0, 0, 0, 0, 0, 0, 0,
      0, 0, 0, 0, 0, 0, 0, 0, 0, 0, 0, 0,
      0, 0, 0, 0, 0, 0, 0, 0, 0, 0, 0, 0,
      0, 0, 0, 0, 0, 0, 1, 192] div 64) 64
     [97, 98, 99, 100, 98, 99, 100, 101, 99, 100, 101, 102,
      100, 101, 102, 103, 101, 102, 103, 104, 102, 103, 104, 105,
      103, 104, 105, 106, 104, 105, 106, 107, 105, 106, 107, 108,
      106, 107, 108, 109, 107, 108, 109, 110, 108, 109, 110, 111,
      109, 110, 111, 112, 110, 111, 112, 113, 128, 0, 0, 0,
      0, 0, 0, 0, 0, 0, 0, 0, 0, 0, 0, 0,
      0, 0, 0, 0, 0, 0, 0, 0, 0, 0, 0, 0,
      0, 0, 0, 0, 0, 0, 0, 0, 0, 0, 0, 0,
      0, 0, 0, 0, 0, 0, 0, 0, 0, 0, 0, 0,
      0, 0, 0, 0, 0, 0, 0, 0, 0, 0, 0, 0,
      0, 0, 0, 0, 0, 0, 1, 192] =
     [[97, 98, 99, 100, 98, 99, 100, 101, 99, 100, 101, 102,
      100, 101, 102, 103, 101, 102, 103, 104, 102, 103, 104, 105,
      103, 104, 105, 106, 104, 105, 106, 107, 105, 106, 107, 108,
      106, 107, 108, 109, 107, 108, 109, 110, 108, 109, 110, 111,
      109, 110, 111, 112, 110, 111, 112, 113, 128, 0, 0, 0,
      0, 0, 0, 0],
      [0, 0, 0, 0, 0, 0, 0, 0, 0, 0, 0, 0,
      0, 0, 0, 0, 0, 0, 0, 0, 0, 0, 0, 0,
      0, 0, 0, 0, 0, 0, 0, 0, 0, 0, 0, 0,
      0, 0, 0, 0, 0, 0, 0, 0, 0, 0, 0, 0,
      0, 0, 0, 0, 0, 0, 0, 0, 0, 0, 0, 0,
      0, 0, 1, 192]]"
  by (simp add: split_blocks_numeral)

lemma two_blocks_words_1:
  "map be32 (split_blocks 16 4
     [97, 98, 99, 100, 98, 99, 100, 101, 99, 100, 101, 102,
      100, 101, 102, 103, 101, 102, 103, 104, 102, 103, 104, 105,
      103, 104, 105, 106, 104, 105, 106, 107, 105, 106, 107, 108,
      106, 107, 108, 109, 107, 108, 109, 110, 108, 109, 110, 111,
      109, 110, 111, 112, 110, 111, 112, 113, 128, 0, 0, 0,
      0, 0, 0, 0]) =
     [1633837924, 1650680933, 1667523942, 1684366951, 1701209960, 1718052969,
      1734895978, 1751738987, 1768581996, 1785425005, 1802268014, 1819111023,
      1835954032, 1852797041, 2147483648, 0]"
  by (simp add: split_blocks_numeral be32_def)

lemma two_blocks_schedule_1:
  "expand 64
     [1633837924, 1650680933, 1667523942, 1684366951, 1701209960, 1718052969,
      1734895978, 1751738987, 1768581996, 1785425005, 1802268014, 1819111023,
      1835954032, 1852797041, 2147483648, 0] =
     [1633837924, 1650680933, 1667523942, 1684366951, 1701209960, 1718052969,
      1734895978, 1751738987, 1768581996, 1785425005, 1802268014, 1819111023,
      1835954032, 1852797041, 2147483648, 0, 168180286, 3638222047,
      3671908032, 3369252030, 1869970267, 1971018087, 2376166768, 3673094842,
      4210477750, 2801493850, 207637704, 1615642668, 1237378786, 787008444,
      3486985924, 2548662542, 160025576, 4064822270, 1547751610, 2832845883,
      2998494830, 3128652215, 548571762, 2995451136, 2328393794, 681238004,
      1456807713, 3647700946, 946399096, 2875082824, 2131632408, 3733430545,
      3904788144, 436921938, 3444969928, 1190078940, 1624496749, 3723737710,
      657978857, 1216915216, 3533772667, 2576966459, 3603340547, 3438678651,
      2086207085, 4258897000, 4175634548, 3770301565, 354523350, 2067732866,
      938661303, 2241212990, 2164756694, 3198200130, 298312113, 1633210625,
      1607301081, 2133791462, 4167618481, 3605633001, 4112955474, 3075968460,
      1440325108, 536254808]"
  by (simp add: expand_numeral rotl_def)

lemma two_blocks_rounds_1:
  "foldl (sha1_round
     [1633837924, 1650680933, 1667523942, 1684366951, 1701209960, 1718052969,
      1734895978, 1751738987, 1768581996, 1785425005, 1802268014, 1819111023,
      1835954032, 1852797041, 2147483648, 0, 168180286, 3638222047,
      3671908032, 3369252030, 1869970267, 1971018087, 2376166768, 3673094842,
      4210477750, 2801493850, 207637704, 1615642668, 1237378786, 787008444,
      3486985924, 2548662542, 160025576, 4064822270, 1547751610, 2832845883,
      2998494830, 3128652215, 548571762, 2995451136, 2328393794, 681238004,
      1456807713, 3647700946, 946399096, 2875082824, 2131632408, 3733430545,
      3904788144, 436921938, 3444969928, 1190078940, 1624496749, 3723737710,
      657978857, 1216915216, 3533772667, 2576966459, 3603340547, 3438678651,
      2086207085, 4258897000, 4175634548, 3770301565, 354523350, 2067732866,
      938661303, 2241212990, 2164756694, 3198200130, 298312113, 1633210625,
      1607301081, 2133791462, 4167618481, 3605633001, 4112955474, 3075968460,
      1440325108, 536254808])
     (1732584193, 4023233417, 2562383102, 271733878, 3285377520) [0..<80] =
     (2363704599, 3551362085, 1800280195, 1949637842, 2256765826)"
  by (simp add: upt_80 upt_16 sha1_round_def sha1_f_def sha1_k_def rotl_def)

lemma two_blocks_compress_1:
  "sha1_compress (1732584193, 4023233417, 2562383102, 271733878, 3285377520)
     [97, 98, 99, 100, 98, 99, 100, 101, 99, 100, 101, 102,
      100, 101, 102, 103, 101, 102, 103, 104, 102, 103, 104, 105,
      103, 104, 105, 106, 104, 105, 106, 107, 105, 106, 107, 108,
      106, 107, 108, 109, 107, 108, 109, 110, 108, 109, 110, 111,
      109, 110, 111, 112, 110, 111, 112, 113, 128, 0, 0, 0,
      0, 0, 0, 0] =
     (4096288792, 3279628206, 67696001, 2221371720, 1247176050)"
  unfolding sha1_compress_def Let_def two_blocks_words_1 two_blocks_schedule_1 two_blocks_rounds_1
  by simp

lemma two_blocks_words_2:
  "map be32 (split_blocks 16 4
     [0, 0, 0, 0, 0, 0, 0, 0, 0, 0, 0, 0,
      0, 0, 0, 0, 0, 0, 0, 0, 0, 0, 0, 0,
      0, 0, 0, 0, 0, 0, 0, 0, 0, 0, 0, 0,
      0, 0, 0, 0, 0, 0, 0, 0, 0, 0, 0, 0,
      0, 0, 0, 0, 0, 0, 0, 0, 0, 0, 0, 0,
      0, 0, 1, 192]) =
     [0, 0, 0, 0, 0, 0,
      0, 0, 0, 0, 0, 0,
      0, 0, 0, 448]"
  by (simp add: split_blocks_numeral be32_def)

lemma two_blocks_schedule_2:
  "expand 64
     [0, 0, 0, 0, 0, 0,
      0, 0, 0, 0, 0, 0,
      0, 0, 0, 448] =
     [0, 0, 0, 0, 0, 0,
      0, 0, 0, 0, 0, 0,
      0, 0, 0, 448, 0, 0,
      896, 0, 0, 1792, 0, 896,
      3584, 0, 0, 7168, 0, 3456,
      14336, 1152, 0, 28672, 3584, 13824,
      57344, 3584, 0, 118272, 0, 55296,
      229376, 20224, 0, 462336, 60928, 226560,
      917504, 57344, 13824, 1895936, 0, 913408,
      3670016, 312832, 57344, 7400960, 974848, 3579392,
      14680064, 972288, 57344, 30320128, 0, 14155776,
      58777600, 5177344, 0, 118358016, 15597568, 58006528,
      234881024, 14737408, 3553280, 485396480, 0, 233869312,
      939581440, 80180224]"
  by (simp add: expand_numeral rotl_def)

lemma two_blocks_rounds_2:
  "foldl (sha1_round
     [0, 0, 0, 0, 0, 0,
      0, 0, 0, 0, 0, 0,
      0, 0, 0, 448, 0, 0,
      896, 0, 0, 1792, 0, 896,
      3584, 0, 0, 7168, 0, 3456,
      14336, 1152, 0, 28672, 3584, 13824,
      57344, 3584, 0, 118272, 0, 55296,
      229376, 20224, 0, 462336, 60928, 226560,
      917504, 57344, 13824, 1895936, 0, 913408,
      3670016, 312832, 57344, 7400960, 974848, 3579392,
      14680064, 972288, 57344, 30320128, 0, 14155776,
      58777600, 5177344, 0, 118358016, 15597568, 58006528,
      234881024, 14737408, 3553280, 485396480, 0, 233869312,
      939581440, 80180224])
     (4096288792, 3279628206, 67696001, 2221371720, 1247176050) [0..<80] =
     (2423248428, 1489021632, 3064288544, 1961474205, 2599422847)"
  by (simp add: upt_80 upt_16 sha1_round_def sha1_f_def sha1_k_def rotl_def)

lemma two_blocks_compress_2:
  "sha1_compress (4096288792, 3279628206, 67696001, 2221371720, 1247176050)
     [0, 0, 0, 0, 0, 0, 0, 0, 0, 0, 0, 0,
      0, 0, 0, 0, 0, 0, 0, 0, 0, 0, 0, 0,
      0, 0, 0, 0, 0, 0, 0, 0, 0, 0, 0, 0,
      0, 0, 0, 0, 0, 0, 0, 0, 0, 0, 0, 0,
      0, 0, 0, 0, 0, 0, 0, 0, 0, 0, 0, 0,
      0, 0, 1, 192] =
     (2224569924, 473682542, 3131984545, 4182845925, 3846598897)"
  unfolding sha1_compress_def Let_def two_blocks_words_2 two_blocks_schedule_2 two_blocks_rounds_2
  by simp

lemma two_blocks_digest:
  "sha1 [97, 98, 99, 100, 98, 99, 100, 101, 99, 100, 101, 102,
      100, 101, 102, 103, 101, 102, 103, 104, 102, 103, 104, 105,
      103, 104, 105, 106, 104, 105, 106, 107, 105, 106, 107, 108,
      106, 107, 108, 109, 107, 108, 109, 110, 108, 109, 110, 111,
      109, 110, 111, 112, 110, 111, 112, 113] =
     [132, 152, 62, 68, 28, 59, 210, 110, 186, 174, 74, 161,
      249, 81, 41, 229, 229, 70, 112, 241]"
  unfolding sha1_def Let_def two_blocks_pad two_blocks_blocks sha1_init_def
  by (simp add: two_blocks_compress_1 two_blocks_compress_2 be_bytes32_def)

lemma two_blocks_hexdigest:
  "hexdigest (sha1 [97, 98, 99, 100, 98, 99, 100, 101, 99, 100, 101, 102,
      100, 101, 102, 103, 101, 102, 103, 104, 102, 103, 104, 105,
      103, 104, 105, 106, 104, 105, 106, 107, 105, 106, 107, 108,
      106, 107, 108, 109, 107, 108, 109, 110, 108, 109, 110, 111,
      109, 110, 111, 112, 110, 111, 112, 113]) =
     ''84983e441c3bd26ebaae4aa1f95129e5e54670f1''"
  by (simp add: two_blocks_digest hexdigest_def hex_byte_def)

text \<open>The decoder binds every span it returns to the context it was given.\<close>

lemma decoded_context:
  assumes "convert_source_mapping raw cu = Inr a"
  shows "compilation_unit a = Some cu"
  using assms
  by (auto simp: convert_source_mapping_def Source_init_def Let_def
      split: list.splits sum.splits option.splits prod.splits)

text \<open>
  C9. Two decodings of one raw offset against one context give spans with the same
  \<open>content_hash\<close>. A \<open>content_hash\<close> that is returned is the SHA-1 digest of the
  UTF-8 bytes of \<open>content\<close> in 40 lower-case hexadecimal digits, 160 bits. Where
  the context holds the text of the file and bytes \<open>start\<close> to \<open>end\<close> of its
  encoding decode, the hash of either decoding is the digest of those bytes: the
  file and the two offsets fix it. It is returned whenever \<open>content\<close> is.
\<close>

theorem content_hash_deterministic:
  assumes "convert_source_mapping raw cu = Inr a"
    and "convert_source_mapping raw cu = Inr b"
  shows "content_hash a = content_hash b
     \<and> (\<forall>h. content_hash a = Inr h \<longrightarrow>
           length h = 40 \<and> list_all is_hex_char h
           \<and> (\<exists>c bs. content a = Inr c \<and> utf8_encode c = Inr bs \<and> h = hexdigest (sha1 bs)))
     \<and> (\<forall>src bs c.
           source_code (core cu) (absolute (filename a)) = Some src \<longrightarrow>
           utf8_encode src = Inr bs \<longrightarrow>
           utf8_decode (py_slice bs (start a) (end_src a)) = Inr c \<longrightarrow>
           content a = Inr c
           \<and> content_hash b = Inr (hexdigest (sha1 (py_slice bs (start a) (end_src a)))))
     \<and> (\<forall>c. content a = Inr c \<longrightarrow> (\<exists>h. content_hash a = Inr h))"
proof -
  have same: "a = b" using assms by simp
  have width: "length h = 40 \<and> list_all is_hex_char h
      \<and> (\<exists>c bs. content a = Inr c \<and> utf8_encode c = Inr bs \<and> h = hexdigest (sha1 bs))"
    if "content_hash a = Inr h" for h
  proof -
    from that obtain c bs where c: "content a = Inr c" and bs: "utf8_encode c = Inr bs"
      and h: "h = hexdigest (sha1 bs)"
      by (auto simp: content_hash_def split: sum.splits)
    have "length h = 40" by (simp add: h length_hexdigest length_sha1)
    moreover have "list_all is_hex_char h" by (simp add: h hexdigest_chars)
    ultimately show ?thesis using c bs h by blast
  qed
  have slice: "content a = Inr c
      \<and> content_hash b = Inr (hexdigest (sha1 (py_slice bs (start a) (end_src a))))"
    if src: "source_code (core cu) (absolute (filename a)) = Some src"
      and bs: "utf8_encode src = Inr bs"
      and c: "utf8_decode (py_slice bs (start a) (end_src a)) = Inr c"
    for src bs c
  proof -
    have ca: "content a = Inr c"
      using decoded_context [OF assms(1)] src bs c by (simp add: content_def)
    have "utf8_encode c = Inr (py_slice bs (start a) (end_src a))"
      using c by (rule utf8_decode_encode)
    then have "content_hash a = Inr (hexdigest (sha1 (py_slice bs (start a) (end_src a))))"
      using ca by (simp add: content_hash_def)
    then show ?thesis using ca same by simp
  qed
  show ?thesis using same width slice content_hash_returns [of a] by blast
qed

text \<open>
  The span of \<open>uint\<close>: its hash is the digest of the four bytes, whatever else the
  file holds.
\<close>

theorem content_hash_deterministic_witness:
  "content_hash demo_span = Inr ''fcdbc880c3d7454f7aed7a672c34ebc2395648a2''
   \<and> length ''fcdbc880c3d7454f7aed7a672c34ebc2395648a2'' = 40
   \<and> list_all is_hex_char ''fcdbc880c3d7454f7aed7a672c34ebc2395648a2''"
proof -
  note t = content_hash_deterministic [OF demo_span_decoded demo_span_decoded]
  have src: "source_code (core demo_cu) (absolute (filename demo_span)) = Some demo_text"
    by (simp add: demo_span_def demo_cu_def demo_file_def)
  have sl: "py_slice (map byte [47, 47, 32, 195, 169, 116, 195, 169, 33, 10,
                    117, 105, 110, 116, 32, 120, 61, 49, 59, 10])
              (start demo_span) (end_src demo_span) = [117, 105, 110, 116]"
    by (simp add: py_slice_def demo_span_def byte_def)
  have dc: "utf8_decode (py_slice (map byte [47, 47, 32, 195, 169, 116, 195, 169, 33, 10,
                    117, 105, 110, 116, 32, 120, 61, 49, 59, 10])
              (start demo_span) (end_src demo_span)) = Inr [117, 105, 110, 116]"
    unfolding sl by (simp add: decode_step_def)
  have "content_hash demo_span =
      Inr (hexdigest (sha1 (py_slice (map byte [47, 47, 32, 195, 169, 116, 195, 169, 33, 10,
                    117, 105, 110, 116, 32, 120, 61, 49, 59, 10])
              (start demo_span) (end_src demo_span))))"
    using t [THEN conjunct2, THEN conjunct2, THEN conjunct1, rule_format,
        OF src demo_text_bytes dc]
    by (rule conjunct2)
  then have h: "content_hash demo_span = Inr ''fcdbc880c3d7454f7aed7a672c34ebc2395648a2''"
    unfolding sl uint_hexdigest .
  have "length ''fcdbc880c3d7454f7aed7a672c34ebc2395648a2'' = 40
      \<and> list_all is_hex_char ''fcdbc880c3d7454f7aed7a672c34ebc2395648a2''"
    using t [THEN conjunct2, THEN conjunct1, rule_format, OF h] by blast
  with h show ?thesis by simp
qed

end
